theory Spec2Isabelle
  imports Main
begin

section \<open>Go strings and the \<open>strings\<close> functions used by the builder\<close>

text \<open>
  A Go string is a sequence of bytes, so it is a \<^typ>\<open>string\<close> (a list of 8-bit
  characters) here.  The builder calls three functions of Go's \<open>strings\<close> package:
  \<open>TrimSpace\<close>, \<open>ReplaceAll\<close> and \<open>Split\<close>.  They belong to the Go
  standard library, not to the repository; the definitions below follow the library's
  documented behaviour.
\<close>

definition HT :: char where "HT = CHR 0x09"
definition LF :: char where "LF = CHR 0x0A"
definition VT :: char where "VT = CHR 0x0B"
definition FF :: char where "FF = CHR 0x0C"
definition CR :: char where "CR = CHR 0x0D"
definition SP :: char where "SP = CHR 0x20"

text \<open>
  \<open>unicode.IsSpace\<close> holds for the six ASCII characters above and for the code points
  U+0085, U+00A0, U+1680, U+2000 to U+200A, U+2028, U+2029, U+202F, U+205F and U+3000.
  Go's UTF-8 decoder accepts only the shortest encoding of a code point, so a string
  starts (or ends) with a white-space rune exactly when it starts (or ends) with one of
  the following byte sequences.
\<close>

definition white_space :: "string list" where
  "white_space =
    [[HT], [LF], [VT], [FF], [CR], [SP],
     [CHR 0xC2, CHR 0x85], [CHR 0xC2, CHR 0xA0],
     [CHR 0xE1, CHR 0x9A, CHR 0x80],
     [CHR 0xE2, CHR 0x80, CHR 0x80], [CHR 0xE2, CHR 0x80, CHR 0x81],
     [CHR 0xE2, CHR 0x80, CHR 0x82], [CHR 0xE2, CHR 0x80, CHR 0x83],
     [CHR 0xE2, CHR 0x80, CHR 0x84], [CHR 0xE2, CHR 0x80, CHR 0x85],
     [CHR 0xE2, CHR 0x80, CHR 0x86], [CHR 0xE2, CHR 0x80, CHR 0x87],
     [CHR 0xE2, CHR 0x80, CHR 0x88], [CHR 0xE2, CHR 0x80, CHR 0x89],
     [CHR 0xE2, CHR 0x80, CHR 0x8A],
     [CHR 0xE2, CHR 0x80, CHR 0xA8], [CHR 0xE2, CHR 0x80, CHR 0xA9],
     [CHR 0xE2, CHR 0x80, CHR 0xAF], [CHR 0xE2, CHR 0x81, CHR 0x9F],
     [CHR 0xE3, CHR 0x80, CHR 0x80]]"

definition strings_HasPrefix :: "string \<Rightarrow> string \<Rightarrow> bool" where
  "strings_HasPrefix s p = (take (length p) s = p)"

text \<open>The number of bytes of the table entry \<open>s\<close> starts with; 0 when there is none.\<close>

definition width_at :: "string list \<Rightarrow> string \<Rightarrow> nat" where
  "width_at tbl s =
     (case find (strings_HasPrefix s) tbl of None \<Rightarrow> 0 | Some q \<Rightarrow> length q)"

text \<open>The loop of \<open>TrimLeftFunc\<close>: drop leading runes while they are in the table.\<close>

function strip :: "string list \<Rightarrow> string \<Rightarrow> string" where
  "strip tbl s =
     (if s = [] \<or> width_at tbl s = 0 then s else strip tbl (drop (width_at tbl s) s))"
  by pat_completeness auto
termination
  by (relation "measure (\<lambda>(tbl, s). length s)") auto

declare strip.simps [simp del]

definition TrimLeftFunc_IsSpace :: "string \<Rightarrow> string" where
  "TrimLeftFunc_IsSpace s = strip white_space s"

text \<open>
  \<open>TrimRightFunc\<close> walks backwards from the end of the string; that is the same loop on
  the reversed string with every table entry reversed.
\<close>

definition TrimRightFunc_IsSpace :: "string \<Rightarrow> string" where
  "TrimRightFunc_IsSpace s = rev (strip (map rev white_space) (rev s))"

text \<open>
  \<open>strings.TrimSpace(s)\<close>: \<open>s\<close> without its leading and trailing white space.  The
  library has a fast path for ASCII and otherwise returns
  \<open>TrimRightFunc(TrimLeftFunc(s, unicode.IsSpace), unicode.IsSpace)\<close>; both paths
  compute this value.
\<close>

definition strings_TrimSpace :: "string \<Rightarrow> string" where
  "strings_TrimSpace s = TrimRightFunc_IsSpace (TrimLeftFunc_IsSpace s)"

text \<open>A string starts, or ends, with a white-space rune.\<close>

definition starts_with_space :: "string \<Rightarrow> bool" where
  "starts_with_space s = (width_at white_space s \<noteq> 0)"

definition ends_with_space :: "string \<Rightarrow> bool" where
  "ends_with_space s = (width_at (map rev white_space) (rev s) \<noteq> 0)"

text \<open>
  \<open>strings.ReplaceAll(s, old, new)\<close> replaces the non-overlapping occurrences of
  \<open>old\<close>, found from left to right.  For an empty \<open>old\<close> the library inserts \<open>new\<close>
  around every UTF-8 sequence; the builder never does that, and the model leaves that
  case unspecified.
\<close>

fun replace_from :: "string \<Rightarrow> string \<Rightarrow> string \<Rightarrow> string" where
  "replace_from old new [] = []"
| "replace_from old new (c # cs) =
     (if strings_HasPrefix (c # cs) old
      then new @ replace_from old new (drop (length old - 1) cs)
      else c # replace_from old new cs)"

definition strings_ReplaceAll :: "string \<Rightarrow> string \<Rightarrow> string \<Rightarrow> string" where
  "strings_ReplaceAll s old new = (if old = [] then undefined else replace_from old new s)"

text \<open>
  \<open>strings.Split(s, sep)\<close> cuts \<open>s\<close> at every occurrence of \<open>sep\<close>, found from left
  to right, and returns the pieces between them: one more piece than there are
  separators.  \<open>cur\<close> is the piece being read.  For an empty \<open>sep\<close> the library
  explodes \<open>s\<close> into UTF-8 sequences; the builder never does that, and the model leaves
  that case unspecified.
\<close>

fun split_from :: "string \<Rightarrow> string \<Rightarrow> string \<Rightarrow> string list" where
  "split_from sep cur [] = [cur]"
| "split_from sep cur (c # cs) =
     (if strings_HasPrefix (c # cs) sep
      then cur # split_from sep [] (drop (length sep - 1) cs)
      else split_from sep (cur @ [c]) cs)"

definition strings_Split :: "string \<Rightarrow> string \<Rightarrow> string list" where
  "strings_Split s sep = (if sep = [] then undefined else split_from sep [] s)"


section \<open>The process environment and the heap\<close>

text \<open>
  The builder mutates an \<open>exec.Cmd\<close> through a pointer and grows its environment with
  \<open>append\<close>, so objects and slices live in an explicit store.  An address is an index
  into a list of the store; allocation appends to the list, so a new address is never
  one already in use.
\<close>

type_synonym addr = nat

text \<open>\<open>io.Reader\<close> and \<open>io.Writer\<close> values; the nil interface is \<open>None\<close>.  A
  \<open>Sink\<close> is a writer of the caller that takes what it is given, a \<open>Broken\<close> one a
  writer of the caller whose \<open>Write\<close> returns an error.\<close>

datatype reader = os_Stdin | Source nat

datatype writer =
    os_Stdout
  | os_Stderr
  | Sink nat
  | Broken nat
  | Buffer nat
  | MultiWriter "writer list"

text \<open>
  A \<open>[]string\<close> value: nil, or a window of \<open>len\<close> elements at offset \<open>off\<close> of a
  backing array, of which it may use \<open>cap\<close>.
\<close>

datatype slice = nil_slice | Slice addr nat nat nat

fun slice_len :: "slice \<Rightarrow> nat" where
  "slice_len nil_slice = 0"
| "slice_len (Slice a off n c) = n"

fun slice_cap :: "slice \<Rightarrow> nat" where
  "slice_cap nil_slice = 0"
| "slice_cap (Slice a off n c) = c"

text \<open>The fields of \<open>exec.Cmd\<close> the builder touches; \<open>Process\<close> is set once started
  and then holds what the child will do: its exit status and what it writes to its
  standard output.\<close>

record exec_Cmd =
  Path :: string
  Args :: "string list"
  Env :: slice
  Dir :: string
  Stdin :: "reader option"
  Stdout :: "writer option"
  Stderr :: "writer option"
  Process :: "(int \<times> string) option"

text \<open>What the operating system is asked to launch, and what comes of it: the process
  cannot be created, or it runs, writes to its standard output and exits.\<close>

record launch =
  l_Path :: string
  l_Args :: "string list"
  l_Dir :: string
  l_Env :: "string list"
  l_Stdin :: "reader option"

datatype outcome = NotCreated string | Exited int string

datatype error =
    CreationError string
  | ExitError int
  | WriteError nat
  | StdoutAlreadySet
  | AlreadyStarted
  | NotStarted

text \<open>
  The state of the calling process and of the host: the operating system's name
  (\<open>runtime.GOOS\<close>), the environment block (an entry cleared by \<open>Unsetenv\<close> is empty),
  how the runtime grows a slice (old capacity and needed length to new capacity), what
  the operating system does with a launch, the heap of \<open>exec.Cmd\<close> objects, the backing
  arrays of string slices, the number of \<open>bytes.Buffer\<close>s allocated so far, and the
  bytes each writer has received.
\<close>

record world =
  GOOS :: string
  envs :: "string list"
  growslice :: "nat \<Rightarrow> nat \<Rightarrow> nat"
  spawn :: "launch \<Rightarrow> outcome"
  cmds :: "exec_Cmd list"
  arrays :: "string list list"
  nbuf :: nat
  received :: "writer \<Rightarrow> string"

subsection \<open>Slices\<close>

fun slice_elems :: "world \<Rightarrow> slice \<Rightarrow> string list" where
  "slice_elems w nil_slice = []"
| "slice_elems w (Slice a off n c) = take n (drop off (arrays w ! a))"

text \<open>A slice of the program points into an allocated array and stays within it.\<close>

fun wf_slice :: "world \<Rightarrow> slice \<Rightarrow> bool" where
  "wf_slice w nil_slice = True"
| "wf_slice w (Slice a off n c) =
     (a < length (arrays w) \<and> n \<le> c \<and> off + c \<le> length (arrays w ! a))"

definition store_at :: "nat \<Rightarrow> 'a list \<Rightarrow> 'a list \<Rightarrow> 'a list" where
  "store_at p vs xs = take p xs @ vs @ drop (p + length vs) xs"

text \<open>
  The built-in \<open>append(s, vs...)\<close>: when the elements fit the capacity they are written
  into the backing array behind the slice, in place; otherwise a new array of at least
  the needed length is allocated and everything is copied there.
\<close>

definition append_slice :: "slice \<Rightarrow> string list \<Rightarrow> world \<Rightarrow> slice \<times> world" where
  "append_slice s vs w =
     (if slice_len s + length vs \<le> slice_cap s then
        (case s of
           nil_slice \<Rightarrow> (nil_slice, w)
         | Slice a off n c \<Rightarrow>
             (Slice a off (n + length vs) c,
              w\<lparr>arrays := (arrays w)[a := store_at (off + n) vs (arrays w ! a)]\<rparr>))
      else
        (let n = slice_len s + length vs;
             c = max n (growslice w (slice_cap s) n)
         in (Slice (length (arrays w)) 0 n c,
             w\<lparr>arrays := arrays w @ [slice_elems w s @ vs @ replicate (c - n) []]\<rparr>)))"

subsection \<open>Package \<open>os\<close>\<close>

text \<open>The entries of the environment block that are not cleared.\<close>

definition environ :: "world \<Rightarrow> string list" where
  "environ w = filter (\<lambda>e. e \<noteq> []) (envs w)"

text \<open>\<open>os.Environ()\<close>: a new slice holding those entries; its capacity is the size of
  the block.\<close>

definition os_Environ :: "world \<Rightarrow> slice \<times> world" where
  "os_Environ w =
     (let es = environ w
      in (Slice (length (arrays w)) 0 (length es) (length (envs w)),
          w\<lparr>arrays := arrays w @ [es @ replicate (length (envs w) - length es) []]\<rparr>))"

text \<open>\<open>os.Getenv(key)\<close>: the value of the first entry \<open>key=value\<close>, or the empty
  string.\<close>

definition os_Getenv :: "world \<Rightarrow> string \<Rightarrow> string" where
  "os_Getenv w key =
     (if key = [] then []
      else case find (\<lambda>e. CHR ''='' \<in> set e \<and> takeWhile (\<lambda>c. c \<noteq> CHR ''='') e = key) (envs w) of
             None \<Rightarrow> []
           | Some e \<Rightarrow> tl (dropWhile (\<lambda>c. c \<noteq> CHR ''='') e))"

subsection \<open>Writers\<close>

text \<open>\<open>Write(p)\<close> on a writer, with its error (\<open>None\<close> is nil) and what every writer
  has received afterwards.  A broken writer returns its error and takes nothing; any
  other plain writer receives the bytes; a multi-writer hands them to each of its
  writers in turn and stops at the first error.\<close>

fun write_to ::
    "writer \<Rightarrow> string \<Rightarrow> (writer \<Rightarrow> string) \<Rightarrow> error option \<times> (writer \<Rightarrow> string)"
  and write_each ::
    "writer list \<Rightarrow> string \<Rightarrow> (writer \<Rightarrow> string) \<Rightarrow> error option \<times> (writer \<Rightarrow> string)"
where
  "write_to (MultiWriter ws) p r = write_each ws p r"
| "write_to (Broken k) p r = (Some (WriteError k), r)"
| "write_to v p r = (None, r(v := r v @ p))"
| "write_each [] p r = (None, r)"
| "write_each (v # vs) p r =
     (case write_to v p r of
        (Some e, r') \<Rightarrow> (Some e, r')
      | (None, r') \<Rightarrow> write_each vs p r')"

text \<open>The error a write to the writer ends with, and the writers that accept what
  they are given.\<close>

fun write_error :: "writer \<Rightarrow> error option"
  and write_errors :: "writer list \<Rightarrow> error option"
where
  "write_error (MultiWriter ws) = write_errors ws"
| "write_error (Broken k) = Some (WriteError k)"
| "write_error v = None"
| "write_errors [] = None"
| "write_errors (v # vs) =
     (case write_error v of Some e \<Rightarrow> Some e | None \<Rightarrow> write_errors vs)"

definition accepts :: "writer \<Rightarrow> bool" where
  "accepts u = (write_error u = None)"

text \<open>\<open>io.MultiWriter(writers...)\<close> flattens the multi-writers among its arguments.\<close>

definition io_MultiWriter :: "writer list \<Rightarrow> writer" where
  "io_MultiWriter ws =
     MultiWriter (concat (map (\<lambda>v. case v of MultiWriter vs \<Rightarrow> vs | _ \<Rightarrow> [v]) ws))"

text \<open>\<open>var buf bytes.Buffer\<close>: a new, empty buffer.\<close>

definition new_Buffer :: "world \<Rightarrow> writer \<times> world" where
  "new_Buffer w =
     (Buffer (nbuf w),
      w\<lparr>nbuf := Suc (nbuf w), received := (received w)(Buffer (nbuf w) := [])\<rparr>)"

subsection \<open>Package \<open>os/exec\<close>\<close>

definition deref :: "world \<Rightarrow> addr \<Rightarrow> exec_Cmd option" where
  "deref w a = (if a < length (cmds w) then Some (cmds w ! a) else None)"

definition assign :: "addr \<Rightarrow> (exec_Cmd \<Rightarrow> exec_Cmd) \<Rightarrow> world \<Rightarrow> world" where
  "assign a f w = w\<lparr>cmds := (cmds w)[a := f (cmds w ! a)]\<rparr>"

text \<open>\<open>exec.Command(name, arg...)\<close> allocates the command.  The library looks \<open>name\<close>
  up in the path at once and reports a failure at \<open>Start\<close>; here \<open>Path\<close> keeps the name
  as given and the search is part of what the operating system does at launch.\<close>

definition exec_Command :: "string \<Rightarrow> string list \<Rightarrow> world \<Rightarrow> addr \<times> world" where
  "exec_Command name arg w =
     (length (cmds w),
      w\<lparr>cmds := cmds w @
         [\<lparr>Path = name, Args = name # arg, Env = nil_slice, Dir = [], Stdin = None,
           Stdout = None, Stderr = None, Process = None\<rparr>]\<rparr>)"

text \<open>A nil \<open>Env\<close> means the environment of the calling process.  The library drops
  the earlier entries of a key that occurs twice before it launches; here the list is
  handed over as it is, and what the operating system makes of it is part of
  \<open>spawn\<close>.\<close>

definition launch_of :: "world \<Rightarrow> exec_Cmd \<Rightarrow> launch" where
  "launch_of w c =
     \<lparr>l_Path = Path c, l_Args = Args c, l_Dir = Dir c,
      l_Env = (case Env c of nil_slice \<Rightarrow> environ w
               | Slice a off n k \<Rightarrow> slice_elems w (Slice a off n k)),
      l_Stdin = Stdin c\<rparr>"

text \<open>\<open>(*Cmd).Start\<close>, \<open>(*Cmd).Wait\<close>, \<open>(*Cmd).Run\<close> and \<open>(*Cmd).Output\<close>, on a
  command that exists.  \<open>Start\<close> does not wait, so nothing the child writes has arrived
  when it returns.  \<open>Wait\<close> copies the output to \<open>Stdout\<close> (dropped when that is nil;
  nothing is written when there is no output) and returns the exit error when the exit
  status is not 0, and otherwise the error of the copy: a process that exits with
  status 0 still gives an error when the writer rejects its output.

  Left out: what the child writes to its standard error and reads from its standard
  input (so the errors of those two copies, which \<open>Wait\<close> returns in the same way, and
  the copy of standard error that the library's \<open>Output\<close> attaches to an exit error);
  the library's check for a second \<open>Wait\<close>, which cannot fire in \<open>Run\<close>; what
  a call after a \<open>Start\<close> that failed returns; and any effect on the child of a
  writer that stops taking its output, the exit status being the one \<open>spawn\<close> gives.\<close>

definition exec_Start :: "addr \<Rightarrow> world \<Rightarrow> error option \<times> world" where
  "exec_Start a w =
     (let c = cmds w ! a in
      if Process c \<noteq> None then (Some AlreadyStarted, w)
      else case spawn w (launch_of w c) of
             NotCreated msg \<Rightarrow> (Some (CreationError msg), w)
           | Exited status out \<Rightarrow>
               (None, assign a (\<lambda>x. x\<lparr>Process := Some (status, out)\<rparr>) w))"

definition exec_Wait :: "addr \<Rightarrow> world \<Rightarrow> error option \<times> world" where
  "exec_Wait a w =
     (let c = cmds w ! a in
      case Process c of
        None \<Rightarrow> (Some NotStarted, w)
      | Some (status, out) \<Rightarrow>
          (case Stdout c of
             None \<Rightarrow> (if status = 0 then None else Some (ExitError status), w)
           | Some wr \<Rightarrow>
               (let (copyErr, r) =
                      (if out = [] then (None, received w) else write_to wr out (received w))
                in (if status = 0 then copyErr else Some (ExitError status),
                    w\<lparr>received := r\<rparr>))))"

definition exec_Run :: "addr \<Rightarrow> world \<Rightarrow> error option \<times> world" where
  "exec_Run a w =
     (case exec_Start a w of
        (Some err, w1) \<Rightarrow> (Some err, w1)
      | (None, w1) \<Rightarrow> exec_Wait a w1)"

definition exec_Output :: "addr \<Rightarrow> world \<Rightarrow> (string \<times> error option) \<times> world" where
  "exec_Output a w =
     (if Stdout (cmds w ! a) \<noteq> None then (([], Some StdoutAlreadySet), w)
      else
        (let (stdout, w1) = new_Buffer w;
             w2 = assign a (\<lambda>x. x\<lparr>Stdout := Some stdout\<rparr>) w1;
             (err, w3) = exec_Run a w2
         in ((received w3 stdout, err), w3)))"

section \<open>The builder and the factory (\<open>cmd.go\<close>)\<close>

record CmdFactoryOptions =
  opt_Stdin :: "reader option"
  opt_Stdout :: "writer option"
  opt_Stderr :: "writer option"
  opt_Dir :: string
  opt_Env :: slice

record CmdFactory =
  Options :: CmdFactoryOptions

text \<open>A \<open>*CmdBuilder\<close>.  The builder's only field is never reassigned, so the pointer to
  the builder is the builder's value; what is shared and mutated is the \<open>exec.Cmd\<close> it
  points to.\<close>

record CmdBuilder =
  cmd :: addr

definition NewFactory :: "CmdFactoryOptions \<Rightarrow> CmdFactory" where
  "NewFactory options = \<lparr>Options = options\<rparr>"

definition Cmd :: "string \<Rightarrow> string list \<Rightarrow> world \<Rightarrow> CmdBuilder \<times> world" where
  "Cmd name args w =
     (let (c, w1) = exec_Command name args w;
          w2 = assign c (\<lambda>x. x\<lparr>Stderr := Some os_Stderr\<rparr>) w1;
          (env, w3) = os_Environ w2;
          w4 = assign c (\<lambda>x. x\<lparr>Env := env\<rparr>) w3
      in (\<lparr>cmd = c\<rparr>, w4))"

text \<open>The receiver is a copy of the factory; the builder is new, so its command
  exists.\<close>

definition CmdFactory_Cmd ::
  "CmdFactory \<Rightarrow> string \<Rightarrow> string list \<Rightarrow> world \<Rightarrow> CmdBuilder \<times> world" where
  "CmdFactory_Cmd factory name args w =
     (let (builder, w0) = Cmd name args w;
          w1 = (if opt_Stdin (Options factory) \<noteq> None
                then assign (cmd builder) (\<lambda>x. x\<lparr>Stdin := opt_Stdin (Options factory)\<rparr>) w0
                else w0);
          w2 = (if opt_Stdout (Options factory) \<noteq> None
                then assign (cmd builder) (\<lambda>x. x\<lparr>Stdout := opt_Stdout (Options factory)\<rparr>) w1
                else w1);
          w3 = (if opt_Stderr (Options factory) \<noteq> None
                then assign (cmd builder) (\<lambda>x. x\<lparr>Stderr := opt_Stderr (Options factory)\<rparr>) w2
                else w2);
          w4 = (if opt_Dir (Options factory) \<noteq> []
                then assign (cmd builder) (\<lambda>x. x\<lparr>Dir := opt_Dir (Options factory)\<rparr>) w3
                else w3);
          w5 = (if slice_len (opt_Env (Options factory)) > 0
                then (let (env, w') =
                            append_slice (Env (cmds w4 ! cmd builder))
                              (slice_elems w4 (opt_Env (Options factory))) w4
                      in assign (cmd builder) (\<lambda>x. x\<lparr>Env := env\<rparr>) w')
                else w4)
      in (builder, w5))"

definition CmdFactory_Shell :: "CmdFactory \<Rightarrow> string \<Rightarrow> world \<Rightarrow> CmdBuilder \<times> world" where
  "CmdFactory_Shell factory args w =
     (if GOOS w = ''linux'' then CmdFactory_Cmd factory ''bash'' [''-c'', args] w
      else if GOOS w = ''darwin'' then CmdFactory_Cmd factory ''zsh'' [''-c'', args] w
      else if GOOS w = ''windows'' then
        CmdFactory_Cmd factory ''powershell'' [''-Command'', args] w
      else CmdFactory_Cmd factory (os_Getenv w ''SHELL'') [''-c'', args] w)"

definition Shell :: "string \<Rightarrow> world \<Rightarrow> CmdBuilder \<times> world" where
  "Shell args w =
     (if GOOS w = ''linux'' then Cmd ''bash'' [''-c'', args] w
      else if GOOS w = ''darwin'' then Cmd ''zsh'' [''-c'', args] w
      else if GOOS w = ''windows'' then Cmd ''powershell'' [''-Command'', args] w
      else Cmd (os_Getenv w ''SHELL'') [''-c'', args] w)"

text \<open>
  The methods of the builder.  Each reads or writes through \<open>cmdBuilder.cmd\<close>; on a
  builder whose command does not exist (the zero \<open>CmdBuilder\<close>) that is a nil
  dereference and the program panics: the result \<open>None\<close>.
\<close>

definition CmdBuilder_Dir :: "CmdBuilder \<Rightarrow> string \<Rightarrow> world \<Rightarrow> (CmdBuilder \<times> world) option" where
  "CmdBuilder_Dir cmdBuilder dir w =
     (case deref w (cmd cmdBuilder) of
        None \<Rightarrow> None
      | Some _ \<Rightarrow> Some (cmdBuilder, assign (cmd cmdBuilder) (\<lambda>x. x\<lparr>Dir := dir\<rparr>) w))"

definition CmdBuilder_Stdout ::
  "CmdBuilder \<Rightarrow> writer option \<Rightarrow> world \<Rightarrow> (CmdBuilder \<times> world) option" where
  "CmdBuilder_Stdout cmdBuilder stdout w =
     (case deref w (cmd cmdBuilder) of
        None \<Rightarrow> None
      | Some _ \<Rightarrow> Some (cmdBuilder, assign (cmd cmdBuilder) (\<lambda>x. x\<lparr>Stdout := stdout\<rparr>) w))"

definition CmdBuilder_Stderr ::
  "CmdBuilder \<Rightarrow> writer option \<Rightarrow> world \<Rightarrow> (CmdBuilder \<times> world) option" where
  "CmdBuilder_Stderr cmdBuilder stderr w =
     (case deref w (cmd cmdBuilder) of
        None \<Rightarrow> None
      | Some _ \<Rightarrow> Some (cmdBuilder, assign (cmd cmdBuilder) (\<lambda>x. x\<lparr>Stderr := stderr\<rparr>) w))"

definition CmdBuilder_Stdin ::
  "CmdBuilder \<Rightarrow> reader option \<Rightarrow> world \<Rightarrow> (CmdBuilder \<times> world) option" where
  "CmdBuilder_Stdin cmdBuilder stdin w =
     (case deref w (cmd cmdBuilder) of
        None \<Rightarrow> None
      | Some _ \<Rightarrow> Some (cmdBuilder, assign (cmd cmdBuilder) (\<lambda>x. x\<lparr>Stdin := stdin\<rparr>) w))"

definition CmdBuilder_Interactive :: "CmdBuilder \<Rightarrow> world \<Rightarrow> (CmdBuilder \<times> world) option" where
  "CmdBuilder_Interactive cmdBuilder w =
     (case deref w (cmd cmdBuilder) of
        None \<Rightarrow> None
      | Some _ \<Rightarrow>
          (let w1 = assign (cmd cmdBuilder) (\<lambda>x. x\<lparr>Stderr := Some os_Stderr\<rparr>) w;
               w2 = assign (cmd cmdBuilder) (\<lambda>x. x\<lparr>Stdin := Some os_Stdin\<rparr>) w1;
               w3 = assign (cmd cmdBuilder) (\<lambda>x. x\<lparr>Stdout := Some os_Stdout\<rparr>) w2
           in Some (cmdBuilder, w3)))"

definition CmdBuilder_Env ::
  "CmdBuilder \<Rightarrow> string list \<Rightarrow> world \<Rightarrow> (CmdBuilder \<times> world) option" where
  "CmdBuilder_Env cmdBuilder vars w =
     (case deref w (cmd cmdBuilder) of
        None \<Rightarrow> None
      | Some c \<Rightarrow>
          (let (env, w1) = append_slice (Env c) vars w
           in Some (cmdBuilder, assign (cmd cmdBuilder) (\<lambda>x. x\<lparr>Env := env\<rparr>) w1)))"

definition CmdBuilder_Build :: "CmdBuilder \<Rightarrow> addr" where
  "CmdBuilder_Build cmdBuilder = cmd cmdBuilder"


definition CmdBuilder_Run :: "CmdBuilder \<Rightarrow> world \<Rightarrow> (error option \<times> world) option" where
  "CmdBuilder_Run cmdBuilder w =
     (case deref w (cmd cmdBuilder) of
        None \<Rightarrow> None
      | Some _ \<Rightarrow> Some (exec_Run (cmd cmdBuilder) w))"

text \<open>\<open>Output\<close> returns the pair of Go: the string and the error (\<open>None\<close> is nil).\<close>

definition CmdBuilder_Output ::
  "CmdBuilder \<Rightarrow> world \<Rightarrow> ((string \<times> error option) \<times> world) option" where
  "CmdBuilder_Output cmdBuilder w =
     (case deref w (cmd cmdBuilder) of
        None \<Rightarrow> None
      | Some c \<Rightarrow>
          Some
            (case Stdout c of
               Some stdout \<Rightarrow>
                 (let (outBuf, w1) = new_Buffer w;
                      w2 = assign (cmd cmdBuilder)
                             (\<lambda>x. x\<lparr>Stdout := Some (io_MultiWriter [stdout, outBuf])\<rparr>) w1;
                      (err, w3) = exec_Run (cmd cmdBuilder) w2
                  in case err of
                       Some e \<Rightarrow> (([], Some e), w3)
                     | None \<Rightarrow> ((strings_TrimSpace (received w3 outBuf), None), w3))
             | None \<Rightarrow>
                 (let ((output, err), w1) = exec_Output (cmd cmdBuilder) w
                  in case err of
                       Some e \<Rightarrow> (([], Some e), w1)
                     | None \<Rightarrow> ((strings_TrimSpace output, None), w1))))"

text \<open>\<open>Lines\<close> returns the pair of Go: the lines (a nil slice is the empty list) and the
  error.\<close>

definition CmdBuilder_Lines ::
  "CmdBuilder \<Rightarrow> world \<Rightarrow> ((string list \<times> error option) \<times> world) option" where
  "CmdBuilder_Lines cmdBuilder w =
     (case CmdBuilder_Output cmdBuilder w of
        None \<Rightarrow> None
      | Some ((output, err), w1) \<Rightarrow>
          Some
            (case err of
               Some e \<Rightarrow> (([], Some e), w1)
             | None \<Rightarrow>
                 ((strings_Split (strings_ReplaceAll output [CR, LF] [LF]) [LF], None), w1)))"


section \<open>Chains of configuration calls\<close>

text \<open>A chain \<open>b.Dir(d).Env(vs...). ...\<close> is a list of configuration calls, applied
  from left to right to the builder each call returns.\<close>

datatype config =
    SetDir string
  | SetStdout "writer option"
  | SetStderr "writer option"
  | SetStdin "reader option"
  | SetInteractive
  | AddEnv "string list"

fun apply_config :: "CmdBuilder \<Rightarrow> config \<Rightarrow> world \<Rightarrow> (CmdBuilder \<times> world) option" where
  "apply_config b (SetDir dir) w = CmdBuilder_Dir b dir w"
| "apply_config b (SetStdout stdout) w = CmdBuilder_Stdout b stdout w"
| "apply_config b (SetStderr stderr) w = CmdBuilder_Stderr b stderr w"
| "apply_config b (SetStdin stdin) w = CmdBuilder_Stdin b stdin w"
| "apply_config b SetInteractive w = CmdBuilder_Interactive b w"
| "apply_config b (AddEnv vars) w = CmdBuilder_Env b vars w"

fun configure :: "CmdBuilder \<Rightarrow> config list \<Rightarrow> world \<Rightarrow> (CmdBuilder \<times> world) option" where
  "configure b [] w = Some (b, w)"
| "configure b (x # xs) w =
     (case apply_config b x w of None \<Rightarrow> None | Some (b', w') \<Rightarrow> configure b' xs w')"

text \<open>What a builder stands for: the fields of its command and the entries of its
  environment list.\<close>

definition builder_state :: "world \<Rightarrow> CmdBuilder \<Rightarrow> (exec_Cmd \<times> string list) option" where
  "builder_state w b =
     (case deref w (cmd b) of None \<Rightarrow> None | Some c \<Rightarrow> Some (c, slice_elems w (Env c)))"

section \<open>Notions used in the proofs\<close>

text \<open>No entry of the table is empty or starts another entry.\<close>

definition prefix_free :: "string list \<Rightarrow> bool" where
  "prefix_free tbl =
     list_all (\<lambda>q. q \<noteq> [] \<and> list_all (\<lambda>p. strings_HasPrefix q p \<longrightarrow> p = q) tbl) tbl"

text \<open>The backing array a slice points into.\<close>

fun slice_uses :: "slice \<Rightarrow> addr \<Rightarrow> bool" where
  "slice_uses nil_slice k = False"
| "slice_uses (Slice a off n c) k = (a = k)"

text \<open>What a change to the command at \<open>a\<close> may touch: that command, the array
  its environment list uses, and new arrays.  Its environment list stays well formed
  and moves, if at all, to a new array.\<close>

definition step_frame :: "addr \<Rightarrow> world \<Rightarrow> world \<Rightarrow> bool" where
  "step_frame a w w' =
     (a < length (cmds w) \<and> length (cmds w') = length (cmds w) \<and>
      (\<forall>i. i \<noteq> a \<longrightarrow> cmds w' ! i = cmds w ! i) \<and>
      length (arrays w) \<le> length (arrays w') \<and>
      wf_slice w' (Env (cmds w' ! a)) \<and>
      (\<forall>k<length (arrays w). \<not> slice_uses (Env (cmds w ! a)) k \<longrightarrow>
          arrays w' ! k = arrays w ! k \<and> \<not> slice_uses (Env (cmds w' ! a)) k))"

text \<open>The command \<open>Cmd\<close> allocates, and the four conditional assignments of the
  factory's \<open>Cmd\<close> as one update.\<close>

definition default_cmd :: "world \<Rightarrow> string \<Rightarrow> string list \<Rightarrow> exec_Cmd" where
  "default_cmd w name args =
     \<lparr>Path = name, Args = name # args,
      Env = Slice (length (arrays w)) 0 (length (environ w)) (length (envs w)),
      Dir = [], Stdin = None, Stdout = None, Stderr = Some os_Stderr, Process = None\<rparr>"

definition apply_options :: "CmdFactoryOptions \<Rightarrow> exec_Cmd \<Rightarrow> exec_Cmd" where
  "apply_options opts c =
     c\<lparr>Stdin := (if opt_Stdin opts \<noteq> None then opt_Stdin opts else Stdin c),
       Stdout := (if opt_Stdout opts \<noteq> None then opt_Stdout opts else Stdout c),
       Stderr := (if opt_Stderr opts \<noteq> None then opt_Stderr opts else Stderr c),
       Dir := (if opt_Dir opts \<noteq> [] then opt_Dir opts else Dir c)\<rparr>"

text \<open>Every \<open>bytes.Buffer\<close> the writer reaches is one of the first \<open>n\<close> allocated:
  with \<open>n\<close> the number allocated so far, the writer exists.\<close>

fun buffers_below :: "nat \<Rightarrow> writer \<Rightarrow> bool" where
  "buffers_below n (Buffer k) = (k < n)"
| "buffers_below n (MultiWriter ws) = (\<forall>v \<in> set ws. buffers_below n v)"
| "buffers_below n v = True"

text \<open>The writers a writer stands for when it is an argument of \<open>io.MultiWriter\<close>.\<close>

definition flat :: "writer \<Rightarrow> writer list" where
  "flat v = (case v of MultiWriter vs \<Rightarrow> vs | _ \<Rightarrow> [v])"

text \<open>The copy of the output to the writer of standard output, as \<open>Wait\<close> makes it:
  its error, and what the writers have received after it.\<close>

definition copy_error :: "writer option \<Rightarrow> string \<Rightarrow> error option" where
  "copy_error so out =
     (case so of None \<Rightarrow> None | Some u \<Rightarrow> if out = [] then None else write_error u)"

definition tee :: "writer option \<Rightarrow> string \<Rightarrow> (writer \<Rightarrow> string) \<Rightarrow> (writer \<Rightarrow> string)" where
  "tee so out r =
     (case so of None \<Rightarrow> r | Some u \<Rightarrow> if out = [] then r else snd (write_to u out r))"

text \<open>
  \<open>Output\<close> in steps.  It first points the command's standard output at a new buffer,
  next to the writer that was there (\<open>capture\<close>, giving the world \<open>armed\<close>); it then
  runs the command, after which, when the old writer accepts the output, that writer
  has received it, the buffer holds it and the command is started (\<open>finished\<close>).
\<close>

definition capture :: "writer option \<Rightarrow> nat \<Rightarrow> writer" where
  "capture so k = (case so of None \<Rightarrow> Buffer k | Some u \<Rightarrow> io_MultiWriter [u, Buffer k])"

definition armed :: "CmdBuilder \<Rightarrow> world \<Rightarrow> world" where
  "armed b w =
     assign (cmd b) (\<lambda>x. x\<lparr>Stdout := Some (capture (Stdout (cmds w ! cmd b)) (nbuf w))\<rparr>)
       (w\<lparr>nbuf := Suc (nbuf w), received := (received w)(Buffer (nbuf w) := [])\<rparr>)"

definition finished :: "CmdBuilder \<Rightarrow> int \<Rightarrow> string \<Rightarrow> world \<Rightarrow> world" where
  "finished b st out w =
     (assign (cmd b) (\<lambda>x. x\<lparr>Process := Some (st, out)\<rparr>) (armed b w))
       \<lparr>received := (tee (Stdout (cmds w ! cmd b)) out (received w))(Buffer (nbuf w) := out)\<rparr>"

section \<open>Sample inputs\<close>

text \<open>A host on which the properties below are run: a few programs with known
  behaviour, an environment block with one cleared entry, and a heap that already
  holds the environment list of a factory.\<close>

definition sample_run :: "launch \<Rightarrow> outcome" where
  "sample_run l =
     (if l_Path l = ''nope'' then NotCreated ''executable file not found''
      else if l_Path l = ''false'' then Exited 1 []
      else if l_Path l = ''hello'' then Exited 0 (''hello'' @ [LF])
      else if l_Path l = ''lines'' then Exited 0 (''a'' @ [CR, LF] @ ''b'' @ [LF])
      else if l_Path l = ''blank'' then Exited 0 [SP, CR, LF, HT]
      else Exited 0 [])"

definition sample_host :: "string \<Rightarrow> world" where
  "sample_host os =
     \<lparr>GOOS = os, envs = [''PATH=/bin'', [], ''SHELL=/bin/sh''],
      growslice = (\<lambda>c n. 2 * c), spawn = sample_run, cmds = [],
      arrays = [[''LANG=C'', ''TERM=dumb'']], nbuf = 0, received = (\<lambda>_. [])\<rparr>"

definition sample_options :: CmdFactoryOptions where
  "sample_options =
     \<lparr>opt_Stdin = None, opt_Stdout = Some (Sink 1), opt_Stderr = None,
      opt_Dir = ''/tmp'', opt_Env = Slice 0 0 2 2\<rparr>"

definition sample_builder :: "string \<Rightarrow> CmdBuilder \<times> world" where
  "sample_builder name = Cmd name [] (sample_host ''linux'')"


section \<open>Properties of the string functions\<close>

lemmas ctl_defs = HT_def LF_def VT_def FF_def CR_def SP_def

lemma prefix_free_white_space: "prefix_free white_space"
  by (simp add: prefix_free_def white_space_def strings_HasPrefix_def ctl_defs)

lemma prefix_free_rev_white_space: "prefix_free (map rev white_space)"
  by (simp add: prefix_free_def white_space_def strings_HasPrefix_def ctl_defs)

lemma find_SomeD: "find P xs = Some x \<Longrightarrow> x \<in> set xs \<and> P x"
  by (induction xs) (auto split: if_splits)

lemma prefix_free_nonempty: "prefix_free tbl \<Longrightarrow> [] \<notin> set tbl"
  by (auto simp: prefix_free_def list_all_iff)

lemma width_at_Nil: "[] \<notin> set tbl \<Longrightarrow> width_at tbl [] = 0"
proof (cases "find (strings_HasPrefix []) tbl")
  case None
  then show ?thesis by (simp add: width_at_def)
next
  case (Some q)
  assume "[] \<notin> set tbl"
  moreover from Some have "q \<in> set tbl" "strings_HasPrefix [] q"
    using find_SomeD by fastforce+
  ultimately show ?thesis by (auto simp: strings_HasPrefix_def)
qed

lemma width_at_0:
  assumes "width_at tbl s = 0" "[] \<notin> set tbl" "q \<in> set tbl"
  shows "\<not> strings_HasPrefix s q"
proof (cases "find (strings_HasPrefix s) tbl")
  case None
  then show ?thesis using assms(3) by (auto simp: find_None_iff)
next
  case (Some p)
  then have "p \<in> set tbl" using find_SomeD by fastforce
  moreover have "length p = 0" using assms(1) Some by (simp add: width_at_def)
  ultimately show ?thesis using assms(2) by simp
qed

lemma width_at_pos:
  assumes "width_at tbl s \<noteq> 0"
  shows "\<exists>q \<in> set tbl. strings_HasPrefix s q \<and> width_at tbl s = length q"
proof (cases "find (strings_HasPrefix s) tbl")
  case None
  then show ?thesis using assms by (simp add: width_at_def)
next
  case (Some p)
  then have "p \<in> set tbl" "strings_HasPrefix s p" using find_SomeD by fastforce+
  then show ?thesis using Some by (auto simp: width_at_def)
qed

text \<open>Two strings that both start a third: one starts the other.\<close>

lemma common_prefix:
  assumes "strings_HasPrefix (q @ s) p"
  shows "strings_HasPrefix q p \<or> strings_HasPrefix p q"
proof (cases "length p \<le> length q")
  case True
  then show ?thesis using assms by (simp add: strings_HasPrefix_def)
next
  case False
  have "take (length q) p = take (length q) (take (length p) (q @ s))"
    using assms by (simp add: strings_HasPrefix_def)
  also have "\<dots> = q" using False by (simp add: min_def)
  finally show ?thesis by (simp add: strings_HasPrefix_def)
qed

lemma width_at_append:
  assumes "prefix_free tbl" "q \<in> set tbl"
  shows "width_at tbl (q @ s) = length q"
proof -
  have "find (strings_HasPrefix (q @ s)) tbl \<noteq> None"
    using assms(2) by (auto simp: find_None_iff strings_HasPrefix_def)
  then obtain p where p: "find (strings_HasPrefix (q @ s)) tbl = Some p" by auto
  then have pin: "p \<in> set tbl" and pp: "strings_HasPrefix (q @ s) p"
    using find_SomeD by fastforce+
  have "strings_HasPrefix q p \<or> strings_HasPrefix p q"
    using pp by (rule common_prefix)
  then have "p = q"
    using assms pin by (auto simp: prefix_free_def list_all_iff)
  then show ?thesis using p by (simp add: width_at_def)
qed

text \<open>Stripping removes a run of table entries, all of it.\<close>

lemma strip_concat:
  "prefix_free tbl \<Longrightarrow> set qs \<subseteq> set tbl \<Longrightarrow> strip tbl (concat qs @ s) = strip tbl s"
proof (induction qs)
  case Nil
  then show ?case by simp
next
  case (Cons q qs)
  then have q: "q \<in> set tbl" "q \<noteq> []" by (auto simp: prefix_free_def list_all_iff)
  have "width_at tbl (q @ concat qs @ s) = length q"
    using width_at_append [OF Cons.prems(1) q(1)] by simp
  then have "strip tbl (q @ concat qs @ s) = strip tbl (concat qs @ s)"
    using q(2) by (subst strip.simps) simp
  then show ?case using Cons by simp
qed

lemma strip_Nil: "strip tbl [] = []"
  by (simp add: strip.simps)

text \<open>What stripping removes is a run of table entries.\<close>

lemma strip_decomp: "\<exists>qs. set qs \<subseteq> set tbl \<and> s = concat qs @ strip tbl s"
proof (induction tbl s rule: strip.induct)
  case (1 tbl s)
  show ?case
  proof (cases "s = [] \<or> width_at tbl s = 0")
    case True
    then have "strip tbl s = s" by (simp add: strip.simps)
    then have "set [] \<subseteq> set tbl \<and> s = concat [] @ strip tbl s" by simp
    then show ?thesis by blast
  next
    case False
    then obtain q where q: "q \<in> set tbl" "strings_HasPrefix s q" "width_at tbl s = length q"
      using width_at_pos by blast
    from 1 False obtain qs where qs: "set qs \<subseteq> set tbl"
        "drop (width_at tbl s) s = concat qs @ strip tbl (drop (width_at tbl s) s)" by blast
    have st: "strip tbl s = strip tbl (drop (width_at tbl s) s)"
      using False by (subst strip.simps) simp
    have "s = q @ drop (length q) s"
      using q(2) by (metis append_take_drop_id strings_HasPrefix_def)
    then have "s = concat (q # qs) @ strip tbl s"
      using qs(2) st q(3) by simp
    moreover have "set (q # qs) \<subseteq> set tbl" using q(1) qs(1) by simp
    ultimately show ?thesis by blast
  qed
qed

text \<open>What stripping leaves does not start with a table entry.\<close>

lemma strip_stops: "[] \<notin> set tbl \<Longrightarrow> width_at tbl (strip tbl s) = 0"
proof (induction tbl s rule: strip.induct)
  case (1 tbl s)
  show ?case
  proof (cases "s = [] \<or> width_at tbl s = 0")
    case True
    with width_at_Nil [OF 1(2)] show ?thesis by (auto simp: strip.simps)
  next
    case False
    then show ?thesis using 1 by (subst strip.simps) simp
  qed
qed

lemma HasPrefix_append: "strings_HasPrefix r q \<Longrightarrow> strings_HasPrefix (r @ x) q"
proof -
  assume a: "strings_HasPrefix r q"
  then have "length (take (length q) r) = length q" by (simp add: strings_HasPrefix_def)
  then have "length q \<le> length r" by simp
  then show ?thesis using a by (simp add: strings_HasPrefix_def)
qed

lemma width_at_prefix:
  assumes "width_at tbl (r @ x) = 0" "[] \<notin> set tbl"
  shows "width_at tbl r = 0"
proof (rule ccontr)
  assume "width_at tbl r \<noteq> 0"
  then obtain q where q: "q \<in> set tbl" "strings_HasPrefix r q" using width_at_pos by blast
  then have "strings_HasPrefix (r @ x) q" by (simp add: HasPrefix_append)
  then show False using width_at_0 [OF assms q(1)] by simp
qed

lemma white_space_nonempty: "[] \<notin> set white_space" "[] \<notin> set (map rev white_space)"
  using prefix_free_nonempty [OF prefix_free_white_space]
    prefix_free_nonempty [OF prefix_free_rev_white_space] by simp_all

text \<open>\<open>TrimSpace\<close> cuts a run of white space off each end and leaves a string that
  neither starts nor ends with white space.\<close>

lemma TrimSpace_spec:
  "\<exists>pre post. set pre \<subseteq> set white_space \<and> set post \<subseteq> set white_space \<and>
      s = concat pre @ strings_TrimSpace s @ concat post \<and>
      \<not> starts_with_space (strings_TrimSpace s) \<and> \<not> ends_with_space (strings_TrimSpace s)"
proof -
  let ?t = "strip white_space s"
  let ?u = "strip (map rev white_space) (rev ?t)"
  have r: "strings_TrimSpace s = rev ?u"
    by (simp add: strings_TrimSpace_def TrimLeftFunc_IsSpace_def TrimRightFunc_IsSpace_def)
  obtain pre where pre: "set pre \<subseteq> set white_space" "s = concat pre @ ?t"
    using strip_decomp [of white_space s] by blast
  obtain qs where qs: "set qs \<subseteq> set (map rev white_space)" "rev ?t = concat qs @ ?u"
    using strip_decomp [of "map rev white_space" "rev ?t"] by blast
  let ?post = "map rev (rev qs)"
  have "rev (rev ?t) = rev (concat qs @ ?u)" using qs(2) by simp
  then have t: "?t = rev ?u @ concat ?post" by (simp add: rev_concat rev_map)
  have post: "set ?post \<subseteq> set white_space" using qs(1) by auto
  have "width_at white_space ?t = 0" by (rule strip_stops [OF white_space_nonempty(1)])
  then have "width_at white_space (rev ?u @ concat ?post) = 0" using t by simp
  then have a: "width_at white_space (rev ?u) = 0"
    by (rule width_at_prefix) (rule white_space_nonempty(1))
  have b: "width_at (map rev white_space) (rev (rev ?u)) = 0"
    using strip_stops [OF white_space_nonempty(2), of "rev ?t"] by simp
  have "s = concat pre @ rev ?u @ concat ?post" using pre(2) t by simp
  then show ?thesis
    unfolding r starts_with_space_def ends_with_space_def using pre(1) post a b by blast
qed

lemma TrimSpace_white:
  assumes "set qs \<subseteq> set white_space"
  shows "strings_TrimSpace (concat qs) = []"
proof -
  have "strip white_space (concat qs @ []) = strip white_space []"
    using prefix_free_white_space assms by (rule strip_concat)
  then show ?thesis
    by (simp add: strings_TrimSpace_def TrimLeftFunc_IsSpace_def TrimRightFunc_IsSpace_def
        strip_Nil)
qed

lemma TrimSpace_hello: "strings_TrimSpace (''hello'' @ [LF]) = ''hello''"
  by (simp add: strings_TrimSpace_def TrimRightFunc_IsSpace_def TrimLeftFunc_IsSpace_def
      strip.simps width_at_def white_space_def strings_HasPrefix_def ctl_defs)

lemma TrimSpace_lines: "strings_TrimSpace (''a'' @ [CR, LF] @ ''b'' @ [LF]) = ''a'' @ [CR, LF] @ ''b''"
  by (simp add: strings_TrimSpace_def TrimRightFunc_IsSpace_def TrimLeftFunc_IsSpace_def
      strip.simps width_at_def white_space_def strings_HasPrefix_def ctl_defs)

lemma Split_lines:
  "strings_Split (strings_ReplaceAll (''a'' @ [CR, LF] @ ''b'') [CR, LF] [LF]) [LF] = [''a'', ''b'']"
  by (simp add: strings_Split_def strings_ReplaceAll_def strings_HasPrefix_def ctl_defs)

lemma split_from_nonempty: "split_from sep cur s \<noteq> []"
  by (induction sep cur s rule: split_from.induct) simp_all

lemma Split_nonempty: "sep \<noteq> [] \<Longrightarrow> strings_Split s sep \<noteq> []"
  by (simp add: strings_Split_def split_from_nonempty)

lemma Split_empty: "strings_Split (strings_ReplaceAll [] [CR, LF] [LF]) [LF] = [[]]"
  by (simp add: strings_Split_def strings_ReplaceAll_def)

text \<open>The last piece of a split at a single character is empty only for the empty
  string or a string that ends with the separator.\<close>

lemma last_split_from:
  "last (split_from [c] cur s) = [] \<longleftrightarrow> (if s = [] then cur = [] else last s = c)"
  by (induction "[c]" cur s rule: split_from.induct)
    (auto simp: strings_HasPrefix_def split_from_nonempty)

lemma replace_from_last:
  "s \<noteq> [] \<Longrightarrow> replace_from [CR, LF] [LF] s \<noteq> [] \<and>
     last (replace_from [CR, LF] [LF] s) = last s"
proof (induction "[CR, LF]" "[LF]" s rule: replace_from.induct)
  case 1
  then show ?case by simp
next
  case (2 c cs)
  show ?case
  proof (cases "strings_HasPrefix (c # cs) [CR, LF]")
    case True
    then obtain rest where cs: "c = CR" "cs = LF # rest"
      by (cases cs) (auto simp: strings_HasPrefix_def)
    show ?thesis
    proof (cases "rest = []")
      case True
      then show ?thesis using cs by (simp add: strings_HasPrefix_def)
    next
      case False
      then show ?thesis using cs 2(1) by (simp add: strings_HasPrefix_def)
    qed
  next
    case False
    show ?thesis
    proof (cases "cs = []")
      case True
      then show ?thesis using False by simp
    next
      case nonempty: False
      then show ?thesis using False 2(2) by simp
    qed
  qed
qed

lemma ends_with_LF:
  assumes "s \<noteq> []" "last s = LF"
  shows "ends_with_space s"
proof -
  obtain t where s: "s = t @ [LF]" using assms by (metis append_butlast_last_id)
  have "[LF] \<in> set (map rev white_space)" by (simp add: white_space_def)
  from width_at_append [OF prefix_free_rev_white_space this, of "rev t"]
  show ?thesis by (simp add: ends_with_space_def s)
qed

lemma Lines_last:
  assumes "\<not> ends_with_space r"
    "last (strings_Split (strings_ReplaceAll r [CR, LF] [LF]) [LF]) = []"
  shows "strings_Split (strings_ReplaceAll r [CR, LF] [LF]) [LF] = [[]]"
proof (cases "r = []")
  case True
  then show ?thesis by (simp add: Split_empty)
next
  case False
  from replace_from_last [OF False] have
    n: "replace_from [CR, LF] [LF] r \<noteq> []" "last (replace_from [CR, LF] [LF] r) = last r"
    by simp_all
  have "last (split_from [LF] [] (replace_from [CR, LF] [LF] r)) = []"
    using assms(2) by (simp add: strings_Split_def strings_ReplaceAll_def)
  then have "last r = LF" using n by (simp add: last_split_from)
  then have "ends_with_space r" using False by (simp add: ends_with_LF)
  then show ?thesis using assms(1) by simp
qed

section \<open>The heap\<close>

lemma deref_Some: "deref w a = Some c \<longleftrightarrow> a < length (cmds w) \<and> c = cmds w ! a"
  by (auto simp: deref_def)

lemma arrays_assign [simp]: "arrays (assign a f w) = arrays w"
  by (simp add: assign_def)

lemma slice_elems_assign [simp]: "slice_elems (assign a f w) s = slice_elems w s"
  by (cases s) simp_all

lemma wf_slice_assign [simp]: "wf_slice (assign a f w) s = wf_slice w s"
  by (cases s) simp_all

lemma deref_assign:
  "a < length (cmds w) \<Longrightarrow> deref (assign a f w) a = Some (f (cmds w ! a))"
  by (simp add: deref_def assign_def)

lemma store_at_read:
  assumes "p + length vs \<le> length xs" "off \<le> p"
  shows "take (p - off + length vs) (drop off (store_at p vs xs)) =
         take (p - off) (drop off xs) @ vs"
proof -
  let ?A = "take (p - off) (drop off xs)"
  have A: "drop off (take p xs) = ?A" by (simp add: drop_take)
  have lenA: "length ?A = p - off" using assms by simp
  have "drop off (store_at p vs xs) = ?A @ vs @ drop (p + length vs) xs"
    using assms A by (simp add: store_at_def)
  moreover have "p - off + length vs = length (?A @ vs)"
    using lenA by simp
  moreover have "take (length (?A @ vs)) ((?A @ vs) @ drop (p + length vs) xs) = ?A @ vs"
    by (rule append_eq_conv_conj [THEN iffD1, THEN conjunct1, symmetric]) (rule refl)
  ultimately show ?thesis by (simp del: length_append length_take length_drop)
qed

lemma length_store_at: "p + length vs \<le> length xs \<Longrightarrow> length (store_at p vs xs) = length xs"
  by (simp add: store_at_def)

lemma append_slice_elems:
  assumes "wf_slice w s" "append_slice s vs w = (s', w')"
  shows "slice_elems w' s' = slice_elems w s @ vs \<and> wf_slice w' s'"
proof (cases "slice_len s + length vs \<le> slice_cap s")
  case True
  show ?thesis
  proof (cases s)
    case nil_slice
    with True assms show ?thesis by (auto simp: append_slice_def)
  next
    case (Slice a off n c)
    with True assms have fit: "off + n + length vs \<le> length (arrays w ! a)" "a < length (arrays w)"
      by auto
    have s': "s' = Slice a off (n + length vs) c"
      and w': "w' = w\<lparr>arrays := (arrays w)[a := store_at (off + n) vs (arrays w ! a)]\<rparr>"
      using True assms(2) Slice by (auto simp: append_slice_def)
    have "take (n + length vs) (drop off (store_at (off + n) vs (arrays w ! a))) =
          take n (drop off (arrays w ! a)) @ vs"
      using store_at_read [of "off + n" vs "arrays w ! a" off] fit by simp
    then show ?thesis
      using s' w' fit Slice True assms(1) by (simp add: length_store_at)
  qed
next
  case False
  then have s': "s' = Slice (length (arrays w)) 0 (slice_len s + length vs)
                   (max (slice_len s + length vs) (growslice w (slice_cap s) (slice_len s + length vs)))"
    and w': "w' = w\<lparr>arrays := arrays w @ [slice_elems w s @ vs @
                 replicate (max (slice_len s + length vs) (growslice w (slice_cap s) (slice_len s + length vs)) - (slice_len s + length vs)) []]\<rparr>"
    using assms(2) by (auto simp: append_slice_def Let_def)
  have len: "length (slice_elems w s) = slice_len s"
    using assms(1) by (cases s) auto
  show ?thesis
    using s' w' len by (simp add: nth_append)
qed


lemma slice_elems_old:
  "wf_slice w s \<Longrightarrow> arrays w' = arrays w @ ars \<Longrightarrow> slice_elems w' s = slice_elems w s"
  by (cases s) (simp_all add: nth_append)

lemma wf_slice_old:
  "wf_slice w s \<Longrightarrow> arrays w' = arrays w @ ars \<Longrightarrow> wf_slice w' s"
  by (cases s) (simp_all add: nth_append)

lemma assign_assign: "assign a f (assign a g w) = assign a (\<lambda>x. f (g x)) w"
  by (cases "a < length (cmds w)") (simp_all add: assign_def list_update_beyond)

lemma if_assign: "(if P then assign a f w else w) = assign a (\<lambda>x. if P then f x else x) w"
  by (simp add: assign_def)

lemma options_chain:
  "(let w1 = (if opt_Stdin opts \<noteq> None
                then assign a (\<lambda>x. x\<lparr>Stdin := opt_Stdin opts\<rparr>) w0
                else w0);
          w2 = (if opt_Stdout opts \<noteq> None
                then assign a (\<lambda>x. x\<lparr>Stdout := opt_Stdout opts\<rparr>) w1
                else w1);
          w3 = (if opt_Stderr opts \<noteq> None
                then assign a (\<lambda>x. x\<lparr>Stderr := opt_Stderr opts\<rparr>) w2
                else w2);
          w4 = (if opt_Dir opts \<noteq> []
                then assign a (\<lambda>x. x\<lparr>Dir := opt_Dir opts\<rparr>) w3
                else w3)
    in g w4) = g (assign a (apply_options opts) w0)"
proof -
  have "(\<lambda>x. if opt_Dir opts \<noteq> []
        then (if opt_Stderr opts \<noteq> None
              then (if opt_Stdout opts \<noteq> None
                    then (if opt_Stdin opts \<noteq> None then x\<lparr>Stdin := opt_Stdin opts\<rparr> else x)
                         \<lparr>Stdout := opt_Stdout opts\<rparr>
                    else if opt_Stdin opts \<noteq> None then x\<lparr>Stdin := opt_Stdin opts\<rparr> else x)
                   \<lparr>Stderr := opt_Stderr opts\<rparr>
              else if opt_Stdout opts \<noteq> None
                   then (if opt_Stdin opts \<noteq> None then x\<lparr>Stdin := opt_Stdin opts\<rparr> else x)
                        \<lparr>Stdout := opt_Stdout opts\<rparr>
                   else if opt_Stdin opts \<noteq> None then x\<lparr>Stdin := opt_Stdin opts\<rparr> else x)
             \<lparr>Dir := opt_Dir opts\<rparr>
        else if opt_Stderr opts \<noteq> None
             then (if opt_Stdout opts \<noteq> None
                   then (if opt_Stdin opts \<noteq> None then x\<lparr>Stdin := opt_Stdin opts\<rparr> else x)
                        \<lparr>Stdout := opt_Stdout opts\<rparr>
                   else if opt_Stdin opts \<noteq> None then x\<lparr>Stdin := opt_Stdin opts\<rparr> else x)
                  \<lparr>Stderr := opt_Stderr opts\<rparr>
             else if opt_Stdout opts \<noteq> None
                  then (if opt_Stdin opts \<noteq> None then x\<lparr>Stdin := opt_Stdin opts\<rparr> else x)
                       \<lparr>Stdout := opt_Stdout opts\<rparr>
                  else if opt_Stdin opts \<noteq> None then x\<lparr>Stdin := opt_Stdin opts\<rparr> else x) = apply_options opts"
    by (rule ext) (simp add: apply_options_def)
  then show ?thesis
    by (simp only: Let_def if_assign assign_assign)
qed

lemma append_slice_frame:
  assumes "append_slice s vs w = (s', w')"
  shows "cmds w' = cmds w \<and> length (arrays w) \<le> length (arrays w') \<and>
         (\<forall>k<length (arrays w). \<not> slice_uses s k \<longrightarrow> arrays w' ! k = arrays w ! k) \<and>
         (\<forall>k. slice_uses s' k \<longrightarrow> slice_uses s k \<or> length (arrays w) \<le> k) \<and>
         GOOS w' = GOOS w \<and> envs w' = envs w \<and> growslice w' = growslice w \<and>
         spawn w' = spawn w \<and> nbuf w' = nbuf w \<and> received w' = received w"
  using assms by (cases s) (auto simp: append_slice_def Let_def nth_append split: if_splits)

lemma slice_elems_len0: "slice_len s = 0 \<Longrightarrow> slice_elems w s = []"
  by (cases s) simp_all

lemma slice_elems_cong:
  "wf_slice w s \<Longrightarrow> length (arrays w) \<le> length (arrays w') \<Longrightarrow>
   (\<And>k. k < length (arrays w) \<Longrightarrow> slice_uses s k \<Longrightarrow> arrays w' ! k = arrays w ! k) \<Longrightarrow>
   slice_elems w' s = slice_elems w s \<and> wf_slice w' s"
  by (cases s) auto

lemma cmds_append_slice: "cmds (snd (append_slice s vs w)) = cmds w"
  by (cases s) (simp_all add: append_slice_def Let_def)

lemma wf_slice_cmds [simp]: "wf_slice (w\<lparr>cmds := cs\<rparr>) s = wf_slice w s"
  by (cases s) simp_all

lemma slice_elems_cmds [simp]: "slice_elems (w\<lparr>cmds := cs\<rparr>) s = slice_elems w s"
  by (cases s) simp_all

lemma wf_slice_uses: "wf_slice w s \<Longrightarrow> slice_uses s k \<Longrightarrow> k < length (arrays w)"
  by (cases s) auto

lemma slice_take:
  assumes "take (length (arrays w)) (arrays w') = arrays w" "wf_slice w s"
  shows "slice_elems w' s = slice_elems w s \<and> wf_slice w' s"
proof -
  have "length (take (length (arrays w)) (arrays w')) = length (arrays w)"
    using assms(1) by simp
  then have len: "length (arrays w) \<le> length (arrays w')" by simp
  have "\<And>k. k < length (arrays w) \<Longrightarrow> arrays w' ! k = arrays w ! k"
    using assms(1) by (metis nth_take)
  then show ?thesis using slice_elems_cong [OF assms(2) len] by blast
qed

section \<open>Construction\<close>

lemma Cmd_result:
  "Cmd name args w =
     (\<lparr>cmd = length (cmds w)\<rparr>,
      w\<lparr>cmds := cmds w @ [default_cmd w name args],
        arrays := arrays w @ [environ w @ replicate (length (envs w) - length (environ w)) []]\<rparr>)"
  by (simp add: Cmd_def exec_Command_def os_Environ_def assign_def default_cmd_def environ_def
      Let_def)

lemma sample_builder_unfold:
  "sample_builder name =
     (\<lparr>cmd = 0\<rparr>,
      \<lparr>GOOS = ''linux'', envs = [''PATH=/bin'', [], ''SHELL=/bin/sh''],
       growslice = (\<lambda>c n. 2 * c), spawn = sample_run,
       cmds = [\<lparr>Path = name, Args = [name], Env = Slice 1 0 2 3, Dir = [], Stdin = None,
                Stdout = None, Stderr = Some os_Stderr, Process = None\<rparr>],
       arrays = [[''LANG=C'', ''TERM=dumb''], [''PATH=/bin'', ''SHELL=/bin/sh'', []]],
       nbuf = 0, received = (\<lambda>_. [])\<rparr>)"
  by (simp add: sample_builder_def Cmd_result default_cmd_def environ_def sample_host_def)

text \<open>
  Claim C4.  For every name and argument list, the command that \<open>Cmd\<close> creates has
  its standard error set to the error stream of the calling process and its environment
  set to the environment of the calling process (its entries, in order), and has
  standard input and standard output unset: nil, which the launch treats as the null
  device.
\<close>

theorem Cmd_defaults:
  "\<exists>c. deref (snd (Cmd name args w)) (cmd (fst (Cmd name args w))) = Some c \<and>
       Args c = name # args \<and>
       Stderr c = Some os_Stderr \<and>
       slice_elems (snd (Cmd name args w)) (Env c) = environ w \<and>
       Stdin c = None \<and> Stdout c = None"
  by (simp add: Cmd_result default_cmd_def deref_def)

text \<open>
  Claim C6.  \<open>Shell\<close> chooses the program from the name of the host operating system
  alone: \<open>bash -c\<close> on Linux, \<open>zsh -c\<close> on macOS, \<open>powershell -Command\<close> on Windows
  and \<open>$SHELL -c\<close> anywhere else; it is \<open>Cmd\<close> of that program.  The factory's
  \<open>Shell\<close> chooses the same way and is the factory's \<open>Cmd\<close> of that program.
\<close>

theorem Shell_selects_by_GOOS:
  "(GOOS w = ''linux'' \<longrightarrow>
      Shell argString w = Cmd ''bash'' [''-c'', argString] w \<and>
      CmdFactory_Shell factory argString w =
        CmdFactory_Cmd factory ''bash'' [''-c'', argString] w) \<and>
   (GOOS w = ''darwin'' \<longrightarrow>
      Shell argString w = Cmd ''zsh'' [''-c'', argString] w \<and>
      CmdFactory_Shell factory argString w =
        CmdFactory_Cmd factory ''zsh'' [''-c'', argString] w) \<and>
   (GOOS w = ''windows'' \<longrightarrow>
      Shell argString w = Cmd ''powershell'' [''-Command'', argString] w \<and>
      CmdFactory_Shell factory argString w =
        CmdFactory_Cmd factory ''powershell'' [''-Command'', argString] w) \<and>
   (GOOS w \<noteq> ''linux'' \<and> GOOS w \<noteq> ''darwin'' \<and> GOOS w \<noteq> ''windows'' \<longrightarrow>
      Shell argString w = Cmd (os_Getenv w ''SHELL'') [''-c'', argString] w \<and>
      CmdFactory_Shell factory argString w =
        CmdFactory_Cmd factory (os_Getenv w ''SHELL'') [''-c'', argString] w)"
  by (simp add: Shell_def CmdFactory_Shell_def)

theorem Shell_selects_by_GOOS_witness:
  "Shell ''echo hi'' (sample_host ''linux'') =
     Cmd ''bash'' [''-c'', ''echo hi''] (sample_host ''linux'') \<and>
   CmdFactory_Shell (NewFactory sample_options) ''echo hi'' (sample_host ''linux'') =
     CmdFactory_Cmd (NewFactory sample_options) ''bash'' [''-c'', ''echo hi'']
       (sample_host ''linux'') \<and>
   Shell ''echo hi'' (sample_host ''darwin'') =
     Cmd ''zsh'' [''-c'', ''echo hi''] (sample_host ''darwin'') \<and>
   Shell ''echo hi'' (sample_host ''windows'') =
     Cmd ''powershell'' [''-Command'', ''echo hi''] (sample_host ''windows'') \<and>
   Shell ''echo hi'' (sample_host ''plan9'') =
     Cmd ''/bin/sh'' [''-c'', ''echo hi''] (sample_host ''plan9'') \<and>
   CmdFactory_Shell (NewFactory sample_options) ''echo hi'' (sample_host ''plan9'') =
     CmdFactory_Cmd (NewFactory sample_options) ''/bin/sh'' [''-c'', ''echo hi'']
       (sample_host ''plan9'')"
proof -
  have env: "os_Getenv (sample_host ''plan9'') ''SHELL'' = ''/bin/sh''"
    by (simp add: os_Getenv_def sample_host_def)
  have os: "GOOS (sample_host ''linux'') = ''linux''" "GOOS (sample_host ''darwin'') = ''darwin''"
    "GOOS (sample_host ''windows'') = ''windows''" "GOOS (sample_host ''plan9'') = ''plan9''"
    by (simp_all add: sample_host_def)
  show ?thesis
    using Shell_selects_by_GOOS [of "sample_host ''linux''" "''echo hi''" "NewFactory sample_options"]
      Shell_selects_by_GOOS [of "sample_host ''darwin''" "''echo hi''" "NewFactory sample_options"]
      Shell_selects_by_GOOS [of "sample_host ''windows''" "''echo hi''" "NewFactory sample_options"]
      Shell_selects_by_GOOS [of "sample_host ''plan9''" "''echo hi''" "NewFactory sample_options"]
    by (simp add: env os)
qed

lemma CmdFactory_Cmd_unfold:
  "CmdFactory_Cmd factory name args w =
     (let (b, w0) = Cmd name args w;
          w4 = assign (cmd b) (apply_options (Options factory)) w0
      in if slice_len (opt_Env (Options factory)) > 0
         then (let (env, w') = append_slice (Env (cmds w4 ! cmd b)) (slice_elems w4 (opt_Env (Options factory))) w4
               in (b, assign (cmd b) (\<lambda>x. x\<lparr>Env := env\<rparr>) w'))
         else (b, w4))"
  unfolding CmdFactory_Cmd_def
  apply (cases "Cmd name args w")
  apply (simp only: prod.case)
  apply (subst options_chain)
  apply (simp add: Let_def split: prod.splits)
  done

lemma CmdFactory_Cmd_result:
  assumes wf: "wf_slice w (opt_Env (Options factory))"
  shows "\<exists>w' s'.
     CmdFactory_Cmd factory name args w = (\<lparr>cmd = length (cmds w)\<rparr>, w') \<and>
     cmds w' = cmds w @ [(apply_options (Options factory) (default_cmd w name args))\<lparr>Env := s'\<rparr>] \<and>
     slice_elems w' s' = environ w @ slice_elems w (opt_Env (Options factory)) \<and>
     wf_slice w' s' \<and>
     (slice_len (opt_Env (Options factory)) = 0 \<longrightarrow>
        s' = Env (default_cmd w name args) \<and> arrays w' = arrays (snd (Cmd name args w))) \<and>
     (\<forall>k. slice_uses s' k \<longrightarrow> length (arrays w) \<le> k) \<and>
     length (arrays w) < length (arrays w') \<and>
     take (length (arrays w)) (arrays w') = arrays w \<and>
     GOOS w' = GOOS w \<and> envs w' = envs w \<and> growslice w' = growslice w \<and>
     spawn w' = spawn w \<and> nbuf w' = nbuf w \<and> received w' = received w"
proof -
  let ?o = "Options factory"
  let ?dflt = "default_cmd w name args"
  let ?blk = "environ w @ replicate (length (envs w) - length (environ w)) []"
  let ?wa = "w\<lparr>cmds := cmds w @ [?dflt], arrays := arrays w @ [?blk]\<rparr>"
  let ?cfour = "apply_options ?o ?dflt"
  let ?wb = "w\<lparr>cmds := cmds w @ [?cfour], arrays := arrays w @ [?blk]\<rparr>"
  have w4: "assign (length (cmds w)) (apply_options ?o) ?wa = ?wb"
    by (simp add: assign_def)
  have env4: "Env ?cfour = Slice (length (arrays w)) 0 (length (environ w)) (length (envs w))"
    by (simp add: apply_options_def default_cmd_def)
  have len: "length (environ w) \<le> length (envs w)" by (simp add: environ_def)
  have wf4: "wf_slice ?wb (Env ?cfour)" using len by (simp add: env4)
  have el4: "slice_elems ?wb (Env ?cfour) = environ w" by (simp add: env4)
  have fenv4: "\<And>cs. slice_elems (w\<lparr>cmds := cs, arrays := arrays w @ [?blk]\<rparr>) (opt_Env ?o) =
      slice_elems w (opt_Env ?o)"
    using wf by (rule slice_elems_old) simp
  show ?thesis
  proof (cases "0 < slice_len (opt_Env ?o)")
    case False
    then have "CmdFactory_Cmd factory name args w = (\<lparr>cmd = length (cmds w)\<rparr>, ?wb)"
      by (simp add: CmdFactory_Cmd_unfold Cmd_result w4)
    moreover have "?cfour = ?cfour\<lparr>Env := Env ?dflt\<rparr>" by (simp add: apply_options_def)
    moreover have "slice_elems w (opt_Env ?o) = []" using False by (simp add: slice_elems_len0)
    moreover have "Env ?dflt = Env ?cfour" by (simp add: apply_options_def)
    ultimately show ?thesis
      using wf4 el4 env4 by (intro exI [of _ ?wb] exI [of _ "Env ?dflt"]) (simp add: Cmd_result)
  next
    case True
    obtain s' w' where ap: "append_slice (Env ?cfour) (slice_elems w (opt_Env ?o)) ?wb = (s', w')"
      by (cases "append_slice (Env ?cfour) (slice_elems w (opt_Env ?o)) ?wb")
    note fr = append_slice_frame [OF ap]
    note el = append_slice_elems [OF wf4 ap]
    have res: "CmdFactory_Cmd factory name args w =
        (\<lparr>cmd = length (cmds w)\<rparr>, assign (length (cmds w)) (\<lambda>x. x\<lparr>Env := s'\<rparr>) w')"
      using True ap by (simp add: CmdFactory_Cmd_unfold Cmd_result w4 fenv4)
    have cm: "cmds (assign (length (cmds w)) (\<lambda>x. x\<lparr>Env := s'\<rparr>) w') = cmds w @ [?cfour\<lparr>Env := s'\<rparr>]"
      using fr by (simp add: assign_def)
    have uses: "\<forall>k. slice_uses s' k \<longrightarrow> length (arrays w) \<le> k"
      using fr by (auto simp: env4)
    have old: "take (length (arrays w)) (arrays w') = arrays w"
    proof (rule nth_equalityI)
      show "length (take (length (arrays w)) (arrays w')) = length (arrays w)"
        using fr by simp
    next
      fix k assume "k < length (take (length (arrays w)) (arrays w'))"
      then have k: "k < length (arrays w)" by simp
      then have "arrays w' ! k = arrays ?wb ! k" using fr by (simp add: env4)
      then show "take (length (arrays w)) (arrays w') ! k = arrays w ! k"
        using k by (simp add: nth_append)
    qed
    let ?wc = "assign (length (cmds w)) (\<lambda>x. x\<lparr>Env := s'\<rparr>) w'"
    have lt: "length (arrays w) < length (arrays ?wc)" using fr by simp
    have old5: "take (length (arrays w)) (arrays ?wc) = arrays w" using old by simp
    have el5: "slice_elems ?wc s' = environ w @ slice_elems w (opt_Env ?o)"
      using el el4 by simp
    have wf5: "wf_slice ?wc s'" using el by simp
    have nonzero: "slice_len (opt_Env ?o) = 0 \<longrightarrow>
        s' = Env ?dflt \<and> arrays ?wc = arrays (snd (Cmd name args w))"
      using True by simp
    have rest: "GOOS ?wc = GOOS w" "envs ?wc = envs w" "growslice ?wc = growslice w"
      "spawn ?wc = spawn w" "nbuf ?wc = nbuf w" "received ?wc = received w"
      using fr by (simp_all add: assign_def)
    show ?thesis
    proof (intro exI conjI)
      show "CmdFactory_Cmd factory name args w = (\<lparr>cmd = length (cmds w)\<rparr>, ?wc)" by (rule res)
      show "cmds ?wc = cmds w @ [?cfour\<lparr>Env := s'\<rparr>]" by (rule cm)
      show "slice_elems ?wc s' = environ w @ slice_elems w (opt_Env ?o)" by (rule el5)
      show "wf_slice ?wc s'" by (rule wf5)
      show "slice_len (opt_Env ?o) = 0 \<longrightarrow>
        s' = Env ?dflt \<and> arrays ?wc = arrays (snd (Cmd name args w))" by (rule nonzero)
      show "\<forall>k. slice_uses s' k \<longrightarrow> length (arrays w) \<le> k" by (rule uses)
      show "length (arrays w) < length (arrays ?wc)" by (rule lt)
      show "take (length (arrays w)) (arrays ?wc) = arrays w" by (rule old5)
    qed (rule rest)+
  qed
qed

lemma CmdFactory_Cmd_empty:
  assumes "opt_Stdin (Options factory) = None" "opt_Stdout (Options factory) = None"
    "opt_Stderr (Options factory) = None" "opt_Dir (Options factory) = []"
    "slice_len (opt_Env (Options factory)) = 0"
  shows "CmdFactory_Cmd factory name args w = Cmd name args w"
  using assms by (simp add: CmdFactory_Cmd_def split: prod.splits)

text \<open>
  Claim C3.  The factory's \<open>Cmd\<close> builds the default builder and then changes it:
  standard input, output and error each only when the factory's option is not nil, the
  directory only when the factory's is not empty, and the environment by appending the
  factory's entries behind those of the default builder (with no entries the list is
  left as it is).  A factory whose options are all empty gives what \<open>Cmd\<close> gives.
\<close>

theorem CmdFactory_Cmd_overrides:
  assumes "wf_slice w (opt_Env (Options factory))"
  shows "\<exists>c0 c w'.
     deref (snd (Cmd name args w)) (cmd (fst (Cmd name args w))) = Some c0 \<and>
     CmdFactory_Cmd factory name args w = (fst (Cmd name args w), w') \<and>
     deref w' (cmd (fst (Cmd name args w))) = Some c \<and>
     Path c = Path c0 \<and> Args c = Args c0 \<and> Process c = Process c0 \<and>
     Stdin c = (if opt_Stdin (Options factory) \<noteq> None then opt_Stdin (Options factory)
                else Stdin c0) \<and>
     Stdout c = (if opt_Stdout (Options factory) \<noteq> None then opt_Stdout (Options factory)
                 else Stdout c0) \<and>
     Stderr c = (if opt_Stderr (Options factory) \<noteq> None then opt_Stderr (Options factory)
                 else Stderr c0) \<and>
     Dir c = (if opt_Dir (Options factory) \<noteq> [] then opt_Dir (Options factory) else Dir c0) \<and>
     slice_elems w' (Env c) =
       slice_elems (snd (Cmd name args w)) (Env c0) @ slice_elems w (opt_Env (Options factory)) \<and>
     (slice_len (opt_Env (Options factory)) = 0 \<longrightarrow> Env c = Env c0) \<and>
     (opt_Stdin (Options factory) = None \<and> opt_Stdout (Options factory) = None \<and>
      opt_Stderr (Options factory) = None \<and> opt_Dir (Options factory) = [] \<and>
      slice_len (opt_Env (Options factory)) = 0 \<longrightarrow>
        CmdFactory_Cmd factory name args w = Cmd name args w)"
proof -
  let ?o = "Options factory"
  let ?dflt = "default_cmd w name args"
  from CmdFactory_Cmd_result [OF assms, of name args] obtain w' s' where
    r: "CmdFactory_Cmd factory name args w = (\<lparr>cmd = length (cmds w)\<rparr>, w')"
       "cmds w' = cmds w @ [(apply_options ?o ?dflt)\<lparr>Env := s'\<rparr>]"
       "slice_elems w' s' = environ w @ slice_elems w (opt_Env ?o)"
       "slice_len (opt_Env ?o) = 0 \<longrightarrow> s' = Env ?dflt \<and> arrays w' = arrays (snd (Cmd name args w))"
    by (elim exE conjE) (rule that; assumption)
  let ?c = "(apply_options ?o ?dflt)\<lparr>Env := s'\<rparr>"
  have d0: "deref (snd (Cmd name args w)) (cmd (fst (Cmd name args w))) = Some ?dflt"
    by (simp add: Cmd_result deref_def)
  have b: "fst (Cmd name args w) = \<lparr>cmd = length (cmds w)\<rparr>" by (simp add: Cmd_result)
  have d: "deref w' (cmd (fst (Cmd name args w))) = Some ?c"
    using r(2) by (simp add: b deref_def)
  have e0: "slice_elems (snd (Cmd name args w)) (Env ?dflt) = environ w"
    by (simp add: Cmd_result default_cmd_def)
  show ?thesis
  proof (rule exI [of _ ?dflt], rule exI [of _ ?c], rule exI [of _ w'], intro conjI)
    show "deref (snd (Cmd name args w)) (cmd (fst (Cmd name args w))) = Some ?dflt" by (rule d0)
    show "CmdFactory_Cmd factory name args w = (fst (Cmd name args w), w')"
      using r(1) b by simp
    show "deref w' (cmd (fst (Cmd name args w))) = Some ?c" by (rule d)
    show "slice_elems w' (Env ?c) =
       slice_elems (snd (Cmd name args w)) (Env ?dflt) @ slice_elems w (opt_Env ?o)"
      using r(3) e0 by simp
    show "slice_len (opt_Env ?o) = 0 \<longrightarrow> Env ?c = Env ?dflt" using r(4) by simp
    show "opt_Stdin ?o = None \<and> opt_Stdout ?o = None \<and> opt_Stderr ?o = None \<and>
      opt_Dir ?o = [] \<and> slice_len (opt_Env ?o) = 0 \<longrightarrow>
        CmdFactory_Cmd factory name args w = Cmd name args w"
      using CmdFactory_Cmd_empty [of factory name args w] by blast
  qed (simp_all add: apply_options_def)
qed

theorem CmdFactory_Cmd_overrides_witness:
  "wf_slice (sample_host ''linux'') (opt_Env (Options (NewFactory sample_options))) \<and>
   (\<exists>c w'.
     CmdFactory_Cmd (NewFactory sample_options) ''terraform'' [''init''] (sample_host ''linux'') =
       (\<lparr>cmd = 0\<rparr>, w') \<and>
     deref w' 0 = Some c \<and>
     Path c = ''terraform'' \<and> Args c = [''terraform'', ''init''] \<and>
     Stdin c = None \<and> Stdout c = Some (Sink 1) \<and> Stderr c = Some os_Stderr \<and>
     Dir c = ''/tmp'' \<and>
     slice_elems w' (Env c) = [''PATH=/bin'', ''SHELL=/bin/sh'', ''LANG=C'', ''TERM=dumb''])"
proof -
  let ?w = "sample_host ''linux''"
  let ?f = "NewFactory sample_options"
  let ?C = "Cmd ''terraform'' [''init''] ?w"
  have h: "wf_slice ?w (opt_Env (Options ?f))"
    by (simp add: sample_host_def sample_options_def NewFactory_def)
  have opts: "opt_Stdin (Options ?f) = None" "opt_Stdout (Options ?f) = Some (Sink 1)"
    "opt_Stderr (Options ?f) = None" "opt_Dir (Options ?f) = ''/tmp''"
    "slice_elems ?w (opt_Env (Options ?f)) = [''LANG=C'', ''TERM=dumb'']"
    by (simp_all add: sample_host_def sample_options_def NewFactory_def)
  have b: "fst ?C = \<lparr>cmd = 0\<rparr>"
    by (simp add: Cmd_result default_cmd_def environ_def sample_host_def)
  have d0: "deref (snd ?C) 0 =
      Some \<lparr>Path = ''terraform'', Args = [''terraform'', ''init''], Env = Slice 1 0 2 3,
            Dir = [], Stdin = None, Stdout = None, Stderr = Some os_Stderr, Process = None\<rparr>"
    by (simp add: Cmd_result default_cmd_def environ_def sample_host_def deref_def)
  have e0: "slice_elems (snd ?C) (Slice 1 0 2 3) = [''PATH=/bin'', ''SHELL=/bin/sh'']"
    by (simp add: Cmd_result default_cmd_def environ_def sample_host_def)
  from CmdFactory_Cmd_overrides [OF h, of "''terraform''" "[''init'']"]
  obtain c0 c w' where r:
    "deref (snd ?C) (cmd (fst ?C)) = Some c0"
    "CmdFactory_Cmd ?f ''terraform'' [''init''] ?w = (fst ?C, w')"
    "deref w' (cmd (fst ?C)) = Some c"
    "Path c = Path c0" "Args c = Args c0"
    "Stdin c = (if opt_Stdin (Options ?f) \<noteq> None then opt_Stdin (Options ?f) else Stdin c0)"
    "Stdout c = (if opt_Stdout (Options ?f) \<noteq> None then opt_Stdout (Options ?f) else Stdout c0)"
    "Stderr c = (if opt_Stderr (Options ?f) \<noteq> None then opt_Stderr (Options ?f) else Stderr c0)"
    "Dir c = (if opt_Dir (Options ?f) \<noteq> [] then opt_Dir (Options ?f) else Dir c0)"
    "slice_elems w' (Env c) = slice_elems (snd ?C) (Env c0) @ slice_elems ?w (opt_Env (Options ?f))"
    by (elim exE conjE) (rule that; assumption)
  have c0: "c0 = \<lparr>Path = ''terraform'', Args = [''terraform'', ''init''], Env = Slice 1 0 2 3,
            Dir = [], Stdin = None, Stdout = None, Stderr = Some os_Stderr, Process = None\<rparr>"
    using r(1) d0 by (simp add: b)
  show ?thesis
    using h r(2-) e0 by (intro conjI exI [of _ c] exI [of _ w']) (simp_all add: b c0 opts)
qed

section \<open>Configuration\<close>

lemma Env_step:
  assumes "deref w (cmd b) = Some c" and "wf_slice w (Env c)"
  shows "\<exists>w1 c1. CmdBuilder_Env b vs w = Some (b, w1) \<and> deref w1 (cmd b) = Some c1 \<and>
           slice_elems w1 (Env c1) = slice_elems w (Env c) @ vs \<and> wf_slice w1 (Env c1)"
proof -
  obtain s' w' where ap: "append_slice (Env c) vs w = (s', w')"
    by (cases "append_slice (Env c) vs w")
  have elems: "slice_elems w' s' = slice_elems w (Env c) @ vs" "wf_slice w' s'"
    using append_slice_elems [OF assms(2) ap] by simp_all
  have cm: "cmds w' = cmds w" using cmds_append_slice [of "Env c" vs w] ap by simp
  have valid: "cmd b < length (cmds w')" using assms(1) cm by (simp add: deref_Some)
  have "CmdBuilder_Env b vs w = Some (b, assign (cmd b) (\<lambda>x. x\<lparr>Env := s'\<rparr>) w')"
    using assms(1) ap by (simp add: CmdBuilder_Env_def)
  moreover have "deref (assign (cmd b) (\<lambda>x. x\<lparr>Env := s'\<rparr>) w') (cmd b) = Some ((cmds w' ! cmd b)\<lparr>Env := s'\<rparr>)"
    using valid by (rule deref_assign)
  ultimately show ?thesis using elems by simp
qed

text \<open>
  Claim C5.  \<open>Env\<close> is cumulative and keeps the order: after \<open>Env(xs...)\<close> and then
  \<open>Env(ys...)\<close> the environment list is the list before, followed by \<open>xs\<close>, followed by
  \<open>ys\<close>; nothing is dropped or replaced.  With \<open>xs = ["A=1"]\<close> and
  \<open>ys = ["B=2"]\<close> this is the claim's example.
\<close>

theorem Env_cumulative:
  assumes "deref w (cmd b) = Some c" and "wf_slice w (Env c)"
  shows "\<exists>w1 w2 c2. CmdBuilder_Env b xs w = Some (b, w1) \<and>
           CmdBuilder_Env b ys w1 = Some (b, w2) \<and>
           deref w2 (cmd b) = Some c2 \<and>
           slice_elems w2 (Env c2) = slice_elems w (Env c) @ xs @ ys"
proof -
  from Env_step [OF assms, of xs] obtain w1 c1 where
    1: "CmdBuilder_Env b xs w = Some (b, w1)" "deref w1 (cmd b) = Some c1"
       "slice_elems w1 (Env c1) = slice_elems w (Env c) @ xs" "wf_slice w1 (Env c1)"
    by blast
  from Env_step [OF 1(2) 1(4), of ys] obtain w2 c2 where
    2: "CmdBuilder_Env b ys w1 = Some (b, w2)" "deref w2 (cmd b) = Some c2"
       "slice_elems w2 (Env c2) = slice_elems w1 (Env c1) @ ys"
    by blast
  show ?thesis using 1 2 by simp
qed

theorem Env_cumulative_witness:
  "\<exists>w1 w2 c2.
     CmdBuilder_Env (fst (sample_builder ''git'')) [''A=1''] (snd (sample_builder ''git'')) =
       Some (fst (sample_builder ''git''), w1) \<and>
     CmdBuilder_Env (fst (sample_builder ''git'')) [''B=2''] w1 =
       Some (fst (sample_builder ''git''), w2) \<and>
     deref w2 (cmd (fst (sample_builder ''git''))) = Some c2 \<and>
     slice_elems w2 (Env c2) = [''PATH=/bin'', ''SHELL=/bin/sh'', ''A=1'', ''B=2'']"
  using Env_cumulative [of "snd (sample_builder ''git'')" "fst (sample_builder ''git'')"
      "cmds (snd (sample_builder ''git'')) ! 0" "[''A=1'']" "[''B=2'']"]
  by (simp add: sample_builder_unfold deref_def)

section \<open>Builders of one factory do not interfere\<close>

lemma step_frame_refl:
  "a < length (cmds w) \<Longrightarrow> wf_slice w (Env (cmds w ! a)) \<Longrightarrow> step_frame a w w"
  by (simp add: step_frame_def)

lemma step_frame_trans:
  assumes "step_frame a w w'" "step_frame a w' w''"
  shows "step_frame a w w''"
  using assms unfolding step_frame_def
  by (metis (no_types, lifting) le_trans less_le_trans)

lemma step_frame_assign:
  assumes "a < length (cmds w)" "wf_slice w (Env (cmds w ! a))" "\<And>x. Env (f x) = Env x"
  shows "step_frame a w (assign a f w)"
  using assms by (simp add: step_frame_def assign_def)

lemma step_frame_Env:
  assumes "a < length (cmds w)" "wf_slice w (Env (cmds w ! a))"
    "append_slice (Env (cmds w ! a)) vs w = (s', w')"
  shows "step_frame a w (assign a (\<lambda>x. x\<lparr>Env := s'\<rparr>) w')"
proof -
  note fr = append_slice_frame [OF assms(3)]
  note el = append_slice_elems [OF assms(2) assms(3)]
  have wfs: "\<forall>k. slice_uses (Env (cmds w ! a)) k \<longrightarrow> k < length (arrays w)"
    using assms(2) by (cases "Env (cmds w ! a)") auto
  show ?thesis
    unfolding step_frame_def using assms(1) fr el wfs
    by (auto simp: assign_def)
qed

lemma config_step:
  assumes "cmd b < length (cmds w)" "wf_slice w (Env (cmds w ! cmd b))"
  shows "\<exists>w'. apply_config b x w = Some (b, w') \<and> step_frame (cmd b) w w'"
proof (cases x)
  case (AddEnv vs)
  obtain s' w' where ap: "append_slice (Env (cmds w ! cmd b)) vs w = (s', w')"
    by (cases "append_slice (Env (cmds w ! cmd b)) vs w")
  have "apply_config b x w = Some (b, assign (cmd b) (\<lambda>x. x\<lparr>Env := s'\<rparr>) w')"
    using AddEnv assms(1) ap by (simp add: CmdBuilder_Env_def deref_def)
  then show ?thesis using step_frame_Env [OF assms ap] by blast
next
  case SetInteractive
  have "apply_config b x w =
    Some (b, assign (cmd b) (\<lambda>x. x\<lparr>Stderr := Some os_Stderr, Stdin := Some os_Stdin, Stdout := Some os_Stdout\<rparr>) w)"
    using SetInteractive assms(1) by (simp add: CmdBuilder_Interactive_def deref_def assign_assign)
  then show ?thesis using step_frame_assign [OF assms] by simp
qed (use assms step_frame_assign [OF assms] in
      \<open>simp_all add: CmdBuilder_Dir_def CmdBuilder_Stdout_def CmdBuilder_Stderr_def
         CmdBuilder_Stdin_def deref_def\<close>)

lemma configure_frame:
  "cmd b < length (cmds w) \<Longrightarrow> wf_slice w (Env (cmds w ! cmd b)) \<Longrightarrow>
   \<exists>w'. configure b ops w = Some (b, w') \<and> step_frame (cmd b) w w'"
proof (induction ops arbitrary: w)
  case Nil
  then show ?case by (simp add: step_frame_refl)
next
  case (Cons x ops)
  from config_step [OF Cons.prems, of x] obtain w1 where
    1: "apply_config b x w = Some (b, w1)" "step_frame (cmd b) w w1" by blast
  then have "cmd b < length (cmds w1)" "wf_slice w1 (Env (cmds w1 ! cmd b))"
    by (simp_all add: step_frame_def)
  from Cons.IH [OF this] obtain w2 where
    2: "configure b ops w1 = Some (b, w2)" "step_frame (cmd b) w1 w2" by blast
  show ?case using 1 2 step_frame_trans by auto
qed

text \<open>What a frame step on one command leaves alone: another command and any slice
  whose array the command's environment does not use.\<close>

lemma step_frame_other_slice:
  assumes "step_frame a w w'" "wf_slice w s"
    "\<And>k. slice_uses s k \<Longrightarrow> \<not> slice_uses (Env (cmds w ! a)) k"
  shows "slice_elems w' s = slice_elems w s"
proof (cases s)
  case nil_slice
  then show ?thesis by simp
next
  case (Slice k off n c)
  then have "k < length (arrays w)" "\<not> slice_uses (Env (cmds w ! a)) k"
    using assms(2,3) by auto
  then have "arrays w' ! k = arrays w ! k" using assms(1) by (simp add: step_frame_def)
  then show ?thesis using Slice by simp
qed

lemma step_frame_other_builder:
  assumes "step_frame a w w'" "cmd b \<noteq> a" "cmd b < length (cmds w)"
    "wf_slice w (Env (cmds w ! cmd b))"
    "\<And>k. slice_uses (Env (cmds w ! cmd b)) k \<Longrightarrow> \<not> slice_uses (Env (cmds w ! a)) k"
  shows "builder_state w' b = builder_state w b"
proof -
  have c: "cmds w' ! cmd b = cmds w ! cmd b" "length (cmds w') = length (cmds w)"
    using assms(1,2) by (simp_all add: step_frame_def)
  have "slice_elems w' (Env (cmds w ! cmd b)) = slice_elems w (Env (cmds w ! cmd b))"
    using assms(1,4,5) by (rule step_frame_other_slice)
  then show ?thesis using c assms(3) by (simp add: builder_state_def deref_def)
qed

text \<open>
  Claim C10.  The factory is passed to its \<open>Cmd\<close> by value and the call only reads
  the entries of its environment list, so the factory's options are the same after the
  call.  Each builder the factory makes has a command of its own whose environment list
  is in an array allocated by the call, holding the environment of the calling process
  followed by the factory's entries.  So for two builders made by one factory, making
  the second leaves the first as it was, and any chain of configuration calls on either
  of them leaves the other builder and the factory's environment list as they were.
\<close>

theorem factory_builders_independent:
  assumes wf: "wf_slice w (opt_Env (Options factory))"
  shows "\<exists>b1 w1 b2 w2.
     CmdFactory_Cmd factory n1 a1 w = (b1, w1) \<and>
     CmdFactory_Cmd factory n2 a2 w1 = (b2, w2) \<and>
     slice_elems w1 (opt_Env (Options factory)) = slice_elems w (opt_Env (Options factory)) \<and>
     slice_elems w2 (opt_Env (Options factory)) = slice_elems w (opt_Env (Options factory)) \<and>
     (\<exists>c. deref w1 (cmd b1) = Some c \<and>
          (\<forall>k. slice_uses (Env c) k \<longrightarrow> length (arrays w) \<le> k) \<and>
          slice_elems w1 (Env c) = environ w @ slice_elems w (opt_Env (Options factory))) \<and>
     builder_state w2 b1 = builder_state w1 b1 \<and>
     (\<forall>ops. \<exists>w3. configure b2 ops w2 = Some (b2, w3) \<and>
        builder_state w3 b1 = builder_state w2 b1 \<and>
        slice_elems w3 (opt_Env (Options factory)) = slice_elems w (opt_Env (Options factory))) \<and>
     (\<forall>ops. \<exists>w3. configure b1 ops w2 = Some (b1, w3) \<and>
        builder_state w3 b2 = builder_state w2 b2 \<and>
        slice_elems w3 (opt_Env (Options factory)) = slice_elems w (opt_Env (Options factory)))"
proof -
  let ?fe = "opt_Env (Options factory)"
  let ?ba = "\<lparr>cmd = length (cmds w)\<rparr>"
  from CmdFactory_Cmd_result [OF wf, of n1 a1] obtain w1 s1 where
    r1: "CmdFactory_Cmd factory n1 a1 w = (?ba, w1)"
      "cmds w1 = cmds w @ [(apply_options (Options factory) (default_cmd w n1 a1))\<lparr>Env := s1\<rparr>]"
      "slice_elems w1 s1 = environ w @ slice_elems w ?fe"
      "wf_slice w1 s1"
      "\<forall>k. slice_uses s1 k \<longrightarrow> length (arrays w) \<le> k"
      "length (arrays w) < length (arrays w1)"
      "take (length (arrays w)) (arrays w1) = arrays w"
    by (elim exE conjE) (rule that; assumption)
  note fe1 = slice_take [OF r1(7) wf]
  let ?bb = "\<lparr>cmd = length (cmds w1)\<rparr>"
  from CmdFactory_Cmd_result [OF fe1 [THEN conjunct2], of n2 a2] obtain w2 s2 where
    r2: "CmdFactory_Cmd factory n2 a2 w1 = (?bb, w2)"
      "cmds w2 = cmds w1 @ [(apply_options (Options factory) (default_cmd w1 n2 a2))\<lparr>Env := s2\<rparr>]"
      "wf_slice w2 s2"
      "\<forall>k. slice_uses s2 k \<longrightarrow> length (arrays w1) \<le> k"
      "take (length (arrays w1)) (arrays w2) = arrays w1"
    by (elim exE conjE) (rule that; assumption)
  note fe2 = slice_take [OF r2(5) fe1 [THEN conjunct2]]
  note s12 = slice_take [OF r2(5) r1(4)]
  have la: "cmd ?ba < length (cmds w2)" "cmd ?bb < length (cmds w2)" "cmd ?ba \<noteq> cmd ?bb"
    using r1(2) r2(2) by simp_all
  have ca: "cmds w2 ! cmd ?ba = (apply_options (Options factory) (default_cmd w n1 a1))\<lparr>Env := s1\<rparr>"
    using r1(2) r2(2) by (simp add: nth_append)
  have cb: "cmds w2 ! cmd ?bb = (apply_options (Options factory) (default_cmd w1 n2 a2))\<lparr>Env := s2\<rparr>"
    using r2(2) by simp
  have ea: "Env (cmds w2 ! length (cmds w)) = s1" using ca by simp
  have eb: "Env (cmds w2 ! length (cmds w1)) = s2" using cb by simp
  have d1: "deref w1 (cmd ?ba) = Some ((apply_options (Options factory) (default_cmd w n1 a1))\<lparr>Env := s1\<rparr>)"
    using r1(2) by (simp add: deref_def)
  have same: "builder_state w2 ?ba = builder_state w1 ?ba"
    using d1 ca la(1) s12 by (simp add: builder_state_def deref_def)
  have disj: "\<And>k. slice_uses s1 k \<Longrightarrow> \<not> slice_uses s2 k"
    using wf_slice_uses [OF r1(4)] r2(4) by fastforce
  have fe_a: "\<And>k. slice_uses ?fe k \<Longrightarrow> \<not> slice_uses s1 k"
    using wf_slice_uses [OF wf] r1(5) by fastforce
  have fe_b: "\<And>k. slice_uses ?fe k \<Longrightarrow> \<not> slice_uses s2 k"
    using wf_slice_uses [OF fe1 [THEN conjunct2]] r2(4) by fastforce
  have conf_b: "\<exists>w3. configure ?bb ops w2 = Some (?bb, w3) \<and>
        builder_state w3 ?ba = builder_state w2 ?ba \<and>
        slice_elems w3 ?fe = slice_elems w ?fe" for ops
  proof -
    from configure_frame [OF la(2), of ops] r2(3) eb obtain w3 where
      3: "configure ?bb ops w2 = Some (?bb, w3)" "step_frame (cmd ?bb) w2 w3" by auto
    have "builder_state w3 ?ba = builder_state w2 ?ba"
      using la(3) la(1) s12 disj by (intro step_frame_other_builder [OF 3(2)]) (auto simp: ea eb)
    moreover have "slice_elems w3 ?fe = slice_elems w2 ?fe"
      using fe2 fe_b by (intro step_frame_other_slice [OF 3(2)]) (simp_all add: eb)
    ultimately show ?thesis using 3(1) fe1 fe2 by simp
  qed
  have conf_a: "\<exists>w3. configure ?ba ops w2 = Some (?ba, w3) \<and>
        builder_state w3 ?bb = builder_state w2 ?bb \<and>
        slice_elems w3 ?fe = slice_elems w ?fe" for ops
  proof -
    from configure_frame [OF la(1), of ops] s12 ea obtain w3 where
      3: "configure ?ba ops w2 = Some (?ba, w3)" "step_frame (cmd ?ba) w2 w3" by auto
    have "builder_state w3 ?bb = builder_state w2 ?bb"
      using la(3) la(2) r2(3) disj by (intro step_frame_other_builder [OF 3(2)]) (auto simp: ea eb)
    moreover have "slice_elems w3 ?fe = slice_elems w2 ?fe"
      using fe2 fe_a by (intro step_frame_other_slice [OF 3(2)]) (simp_all add: ea)
    ultimately show ?thesis using 3(1) fe1 fe2 by simp
  qed
  show ?thesis
  proof (rule exI [of _ ?ba], rule exI [of _ w1], rule exI [of _ ?bb], rule exI [of _ w2],
      intro conjI allI)
    show "CmdFactory_Cmd factory n1 a1 w = (?ba, w1)" by (rule r1(1))
    show "CmdFactory_Cmd factory n2 a2 w1 = (?bb, w2)" by (rule r2(1))
    show "slice_elems w1 ?fe = slice_elems w ?fe" using fe1 by simp
    show "slice_elems w2 ?fe = slice_elems w ?fe" using fe1 fe2 by simp
    show "\<exists>c. deref w1 (cmd ?ba) = Some c \<and>
          (\<forall>k. slice_uses (Env c) k \<longrightarrow> length (arrays w) \<le> k) \<and>
          slice_elems w1 (Env c) = environ w @ slice_elems w ?fe"
      using d1 r1(3,5) by simp
    show "builder_state w2 ?ba = builder_state w1 ?ba" by (rule same)
    show "\<exists>w3. configure ?bb ops w2 = Some (?bb, w3) \<and>
        builder_state w3 ?ba = builder_state w2 ?ba \<and>
        slice_elems w3 ?fe = slice_elems w ?fe" for ops by (rule conf_b)
    show "\<exists>w3. configure ?ba ops w2 = Some (?ba, w3) \<and>
        builder_state w3 ?bb = builder_state w2 ?bb \<and>
        slice_elems w3 ?fe = slice_elems w ?fe" for ops by (rule conf_a)
  qed
qed

theorem factory_builders_independent_witness:
  "wf_slice (sample_host ''linux'') (opt_Env (Options (NewFactory sample_options))) \<and>
   (\<exists>b1 w1 b2 w2 w3.
      CmdFactory_Cmd (NewFactory sample_options) ''git'' [''pull''] (sample_host ''linux'') = (b1, w1) \<and>
      CmdFactory_Cmd (NewFactory sample_options) ''ssh'' [] w1 = (b2, w2) \<and>
      configure b2 [AddEnv [''A=1''], SetDir ''/srv'', SetInteractive] w2 = Some (b2, w3) \<and>
      map_option snd (builder_state w1 b1) =
        Some [''PATH=/bin'', ''SHELL=/bin/sh'', ''LANG=C'', ''TERM=dumb''] \<and>
      builder_state w3 b1 = builder_state w1 b1 \<and>
      slice_elems w3 (opt_Env (Options (NewFactory sample_options))) = [''LANG=C'', ''TERM=dumb''])"
proof -
  let ?H = "sample_host ''linux''"
  let ?F = "NewFactory sample_options"
  let ?fe = "opt_Env (Options ?F)"
  let ?ops = "[AddEnv [''A=1''], SetDir ''/srv'', SetInteractive]"
  have h: "wf_slice ?H ?fe"
    by (simp add: sample_host_def sample_options_def NewFactory_def)
  have fe: "slice_elems ?H ?fe = [''LANG=C'', ''TERM=dumb'']"
    by (simp add: sample_host_def sample_options_def NewFactory_def)
  have en: "environ ?H = [''PATH=/bin'', ''SHELL=/bin/sh'']"
    by (simp add: sample_host_def environ_def)
  from factory_builders_independent [OF h, of "''git''" "[''pull'']" "''ssh''" "[]"]
  obtain b1 w1 b2 w2 c where r:
    "CmdFactory_Cmd ?F ''git'' [''pull''] ?H = (b1, w1)"
    "CmdFactory_Cmd ?F ''ssh'' [] w1 = (b2, w2)"
    "deref w1 (cmd b1) = Some c \<and>
          slice_elems w1 (Env c) = environ ?H @ slice_elems ?H ?fe"
    "builder_state w2 b1 = builder_state w1 b1"
    "\<forall>ops. \<exists>w3. configure b2 ops w2 = Some (b2, w3) \<and>
        builder_state w3 b1 = builder_state w2 b1 \<and>
        slice_elems w3 ?fe = slice_elems ?H ?fe"
    by (elim exE conjE) (rule that; (assumption | (intro conjI; assumption)))
  from r(5) obtain w3 where c:
    "configure b2 ?ops w2 = Some (b2, w3)" "builder_state w3 b1 = builder_state w2 b1"
    "slice_elems w3 ?fe = slice_elems ?H ?fe"
    by blast
  have st: "map_option snd (builder_state w1 b1) =
        Some [''PATH=/bin'', ''SHELL=/bin/sh'', ''LANG=C'', ''TERM=dumb'']"
    using r(3) by (auto simp: builder_state_def fe en)
  show ?thesis
  proof (intro conjI exI)
    show "wf_slice ?H ?fe" by (rule h)
    show "CmdFactory_Cmd ?F ''git'' [''pull''] ?H = (b1, w1)" by (rule r(1))
    show "CmdFactory_Cmd ?F ''ssh'' [] w1 = (b2, w2)" by (rule r(2))
    show "configure b2 ?ops w2 = Some (b2, w3)" by (rule c(1))
    show "map_option snd (builder_state w1 b1) =
        Some [''PATH=/bin'', ''SHELL=/bin/sh'', ''LANG=C'', ''TERM=dumb'']" by (rule st)
    show "builder_state w3 b1 = builder_state w1 b1" using c(2) r(4) by simp
    show "slice_elems w3 ?fe = [''LANG=C'', ''TERM=dumb'']" using c(3) fe by simp
  qed
qed

section \<open>Running the command\<close>

lemma io_MultiWriter_pair: "io_MultiWriter [u, v] = MultiWriter (flat u @ flat v)"
  by (simp add: io_MultiWriter_def flat_def)

text \<open>The error of a write depends on the writer alone.\<close>

lemma write_to_error:
  "fst (write_to u p r) = write_error u"
  "fst (write_each ws p r) = write_errors ws"
  by (induction u p r and ws p r rule: write_to_write_each.induct)
    (auto split: prod.splits option.splits)

lemma write_to_pair: "write_to u p r = (write_error u, snd (write_to u p r))"
  by (metis prod.collapse write_to_error(1))

lemma write_each_pair: "write_each ws p r = (write_errors ws, snd (write_each ws p r))"
  by (metis prod.collapse write_to_error(2))

lemma write_each_Cons:
  "snd (write_each (v # vs) p r) =
     (if write_error v = None then snd (write_each vs p (snd (write_to v p r)))
      else snd (write_to v p r))"
  using write_to_error(1) [of v p r] by (cases "write_to v p r") auto

lemma write_each_append:
  "write_errors (xs @ ys) = (case write_errors xs of Some e \<Rightarrow> Some e | None \<Rightarrow> write_errors ys)"
  "snd (write_each (xs @ ys) p r) =
     (if write_errors xs = None then snd (write_each ys p (snd (write_each xs p r)))
      else snd (write_each xs p r))"
  by (induction xs arbitrary: r)
    (auto simp: write_each_Cons simp del: write_each.simps(2) split: option.splits)

lemma flat_Buffer: "flat (Buffer k) = [Buffer k]"
  by (simp add: flat_def)

lemma write_flat:
  "write_errors (flat u) = write_error u"
  "snd (write_each (flat u) p r) = snd (write_to u p r)"
  by (cases u; simp add: flat_def write_each_Cons)+

text \<open>A writer that exists does not touch a buffer allocated later.\<close>

lemma write_to_fresh:
  "buffers_below n u \<Longrightarrow> n \<le> k \<Longrightarrow>
     snd (write_to u p (r(Buffer k := x))) = (snd (write_to u p r))(Buffer k := x)"
  "\<forall>v \<in> set ws. buffers_below n v \<Longrightarrow> n \<le> k \<Longrightarrow>
     snd (write_each ws p (r(Buffer k := x))) = (snd (write_each ws p r))(Buffer k := x)"
proof (induction u p r and ws p r rule: write_to_write_each.induct)
  case (5 v vs p r)
  have bv: "buffers_below n v" and bvs: "\<forall>v \<in> set vs. buffers_below n v"
    using 5(3) by simp_all
  have a: "snd (write_to v p (r(Buffer k := x))) = (snd (write_to v p r))(Buffer k := x)"
    using 5(1) bv 5(4) by blast
  show ?case
  proof (cases "write_error v")
    case None
    then have "(None, snd (write_to v p r)) = write_to v p r"
      using write_to_pair [of v p r] by simp
    from 5(2) [OF this refl bvs 5(4)]
    have "snd (write_each vs p ((snd (write_to v p r))(Buffer k := x))) =
          (snd (write_each vs p (snd (write_to v p r))))(Buffer k := x)" .
    then show ?thesis
      unfolding write_each_Cons using None a by (simp only: refl if_True simp_thms)
  next
    case (Some e)
    then show ?thesis
      unfolding write_each_Cons using a by (simp only: option.simps if_False simp_thms)
  qed
qed (auto simp: fun_upd_twist)

lemma capture_error: "write_error (capture so k) = (case so of None \<Rightarrow> None | Some u \<Rightarrow> write_error u)"
  by (cases so) (simp_all add: capture_def io_MultiWriter_pair write_each_append write_flat
      flat_Buffer split: option.splits)

lemma capture_received:
  assumes "\<forall>u. so = Some u \<longrightarrow> buffers_below n u \<and> accepts u"
  shows "snd (write_to (capture so n) out (r(Buffer n := []))) =
         (case so of None \<Rightarrow> r | Some u \<Rightarrow> snd (write_to u out r))(Buffer n := out)"
proof (cases so)
  case None
  then show ?thesis by (simp add: capture_def)
next
  case (Some u)
  then have u: "buffers_below n u" "write_error u = None" using assms by (simp_all add: accepts_def)
  have "snd (write_to (capture so n) out (r(Buffer n := []))) =
        snd (write_each [Buffer n] out (snd (write_to u out (r(Buffer n := [])))))"
    using Some u(2)
    by (simp add: capture_def io_MultiWriter_pair write_each_append write_flat flat_Buffer)
  also have "\<dots> = snd (write_each [Buffer n] out ((snd (write_to u out r))(Buffer n := [])))"
    using write_to_fresh(1) [OF u(1) order_refl] by simp
  finally show ?thesis using Some by simp
qed

lemma launch_of_cong:
  "envs w' = envs w \<Longrightarrow> arrays w' = arrays w \<Longrightarrow> Path c' = Path c \<Longrightarrow> Args c' = Args c \<Longrightarrow>
   Dir c' = Dir c \<Longrightarrow> Env c' = Env c \<Longrightarrow> Stdin c' = Stdin c \<Longrightarrow>
   launch_of w' c' = launch_of w c"
  by (simp add: launch_of_def environ_def split: slice.splits)

lemma exec_Start_result:
  assumes "a < length (cmds w)" "Process (cmds w ! a) = None"
  shows "exec_Start a w =
     (case spawn w (launch_of w (cmds w ! a)) of
        NotCreated msg \<Rightarrow> (Some (CreationError msg), w)
      | Exited st out \<Rightarrow> (None, assign a (\<lambda>x. x\<lparr>Process := Some (st, out)\<rparr>) w))"
  using assms by (simp add: exec_Start_def)

lemma exec_Wait_result:
  assumes "a < length (cmds w)" "Process (cmds w ! a) = Some (st, out)"
  shows "exec_Wait a w =
     (if st = 0 then copy_error (Stdout (cmds w ! a)) out else Some (ExitError st),
      w\<lparr>received := tee (Stdout (cmds w ! a)) out (received w)\<rparr>)"
proof (cases "Stdout (cmds w ! a)")
  case None
  then show ?thesis using assms by (simp add: exec_Wait_def copy_error_def tee_def)
next
  case (Some u)
  show ?thesis
  proof (cases "out = []")
    case True
    then show ?thesis using assms Some by (simp add: exec_Wait_def copy_error_def tee_def)
  next
    case False
    obtain e r where wr: "write_to u out (received w) = (e, r)"
      by (cases "write_to u out (received w)")
    then have "e = write_error u" using write_to_error(1) [of u out "received w"] by simp
    then show ?thesis
      using assms Some False wr by (simp add: exec_Wait_def copy_error_def tee_def)
  qed
qed

lemma exec_Run_result:
  assumes "a < length (cmds w)" "Process (cmds w ! a) = None"
  shows "exec_Run a w =
     (case spawn w (launch_of w (cmds w ! a)) of
        NotCreated msg \<Rightarrow> (Some (CreationError msg), w)
      | Exited st out \<Rightarrow>
          (if st = 0 then copy_error (Stdout (cmds w ! a)) out else Some (ExitError st),
           (assign a (\<lambda>x. x\<lparr>Process := Some (st, out)\<rparr>) w)
             \<lparr>received := tee (Stdout (cmds w ! a)) out (received w)\<rparr>))"
proof (cases "spawn w (launch_of w (cmds w ! a))")
  case (NotCreated msg)
  then show ?thesis using assms by (simp add: exec_Run_def exec_Start_result)
next
  case (Exited st out)
  let ?w1 = "assign a (\<lambda>x. x\<lparr>Process := Some (st, out)\<rparr>) w"
  have s: "exec_Start a w = (None, ?w1)"
    using assms Exited by (simp add: exec_Start_result)
  have w1: "a < length (cmds ?w1)" "Process (cmds ?w1 ! a) = Some (st, out)"
    using assms(1) by (simp_all add: assign_def)
  have w2: "Stdout (cmds ?w1 ! a) = Stdout (cmds w ! a)" "received ?w1 = received w"
    using assms(1) by (simp_all add: assign_def)
  have "exec_Wait a ?w1 =
     (if st = 0 then copy_error (Stdout (cmds w ! a)) out else Some (ExitError st),
      ?w1\<lparr>received := tee (Stdout (cmds w ! a)) out (received w)\<rparr>)"
    unfolding exec_Wait_result [OF w1] w2 ..
  then show ?thesis
    using Exited by (simp add: exec_Run_def s)
qed

lemma exec_Run_started:
  assumes "Process (cmds w ! a) \<noteq> None"
  shows "exec_Run a w = (Some AlreadyStarted, w)"
  using assms by (simp add: exec_Run_def exec_Start_def)

lemma armed_facts:
  assumes "cmd b < length (cmds w)"
  shows "cmd b < length (cmds (armed b w))"
    "Process (cmds (armed b w) ! cmd b) = Process (cmds w ! cmd b)"
    "Stdout (cmds (armed b w) ! cmd b) = Some (capture (Stdout (cmds w ! cmd b)) (nbuf w))"
    "spawn (armed b w) = spawn w"
    "received (armed b w) = (received w)(Buffer (nbuf w) := [])"
  using assms by (simp_all add: armed_def assign_def)

lemma armed_launch:
  assumes "cmd b < length (cmds w)"
  shows "launch_of (armed b w) (cmds (armed b w) ! cmd b) = launch_of w (cmds w ! cmd b)"
  by (rule launch_of_cong) (use assms in \<open>simp_all add: armed_def assign_def\<close>)

lemma armed_copy_error:
  "copy_error (Some (capture so k)) out = copy_error so out"
  by (simp add: copy_error_def capture_error split: option.splits)

lemma armed_tee:
  assumes "\<forall>u. so = Some u \<longrightarrow> buffers_below n u \<and> accepts u"
  shows "tee (Some (capture so n)) out (r(Buffer n := [])) = (tee so out r)(Buffer n := out)"
proof (cases "out = []")
  case True
  then show ?thesis by (simp add: tee_def split: option.splits)
next
  case False
  then show ?thesis
    using capture_received [OF assms, of out r] by (simp add: tee_def split: option.splits)
qed

lemma accepts_copy_error:
  "\<forall>u. so = Some u \<longrightarrow> accepts u \<Longrightarrow> copy_error so out = None"
  by (simp add: copy_error_def accepts_def split: option.splits)

lemma armed_Run:
  assumes "cmd b < length (cmds w)" "Process (cmds w ! cmd b) = None"
    "\<forall>u. Stdout (cmds w ! cmd b) = Some u \<longrightarrow> buffers_below (nbuf w) u \<and> accepts u"
  shows "exec_Run (cmd b) (armed b w) =
     (case spawn w (launch_of w (cmds w ! cmd b)) of
        NotCreated msg \<Rightarrow> (Some (CreationError msg), armed b w)
      | Exited st out \<Rightarrow> (if st = 0 then None else Some (ExitError st), finished b st out w))"
proof -
  note af = armed_facts [OF assms(1)]
  have p: "Process (cmds (armed b w) ! cmd b) = None" using af(2) assms(2) by simp
  have ce: "copy_error (Stdout (cmds w ! cmd b)) out = None" for out
    using assms(3) by (intro accepts_copy_error) simp
  show ?thesis
    unfolding exec_Run_result [OF af(1) p]
    by (simp add: af armed_launch [OF assms(1)] armed_copy_error ce armed_tee [OF assms(3)]
        finished_def split: outcome.splits)
qed

lemma Output_armed:
  assumes "deref w (cmd b) = Some c"
  shows "CmdBuilder_Output b w =
     Some (case exec_Run (cmd b) (armed b w) of
             (Some e, w') \<Rightarrow> (([], Some e), w')
           | (None, w') \<Rightarrow> ((strings_TrimSpace (received w' (Buffer (nbuf w))), None), w'))"
proof -
  have v: "cmd b < length (cmds w)" "c = cmds w ! cmd b"
    using assms by (simp_all add: deref_Some)
  show ?thesis
  proof (cases "Stdout c")
    case None
    then have "armed b w = assign (cmd b) (\<lambda>x. x\<lparr>Stdout := Some (Buffer (nbuf w))\<rparr>)
       (w\<lparr>nbuf := Suc (nbuf w), received := (received w)(Buffer (nbuf w) := [])\<rparr>)"
      using v by (simp add: armed_def capture_def)
    then show ?thesis
      using assms None v
      by (simp add: CmdBuilder_Output_def exec_Output_def new_Buffer_def Let_def
          split: prod.splits option.splits)
  next
    case (Some u)
    then have "armed b w = assign (cmd b) (\<lambda>x. x\<lparr>Stdout := Some (io_MultiWriter [u, Buffer (nbuf w)])\<rparr>)
       (w\<lparr>nbuf := Suc (nbuf w), received := (received w)(Buffer (nbuf w) := [])\<rparr>)"
      using v by (simp add: armed_def capture_def)
    then show ?thesis
      using assms Some v
      by (simp add: CmdBuilder_Output_def new_Buffer_def Let_def
          split: prod.splits option.splits)
  qed
qed

lemma Output_result:
  assumes "deref w (cmd b) = Some c" "Process c = None"
    "\<forall>u. Stdout c = Some u \<longrightarrow> buffers_below (nbuf w) u \<and> accepts u"
  shows "CmdBuilder_Output b w =
     Some (case spawn w (launch_of w c) of
             NotCreated msg \<Rightarrow> (([], Some (CreationError msg)), armed b w)
           | Exited st out \<Rightarrow>
               (if st = 0 then (strings_TrimSpace out, None) else ([], Some (ExitError st)),
                finished b st out w))"
proof -
  have v: "cmd b < length (cmds w)" "c = cmds w ! cmd b"
    using assms(1) by (simp_all add: deref_Some)
  have r: "received (finished b st out w) (Buffer (nbuf w)) = out" for st out
    by (simp add: finished_def)
  show ?thesis
    using assms(2,3) unfolding Output_armed [OF assms(1)] v(2)
    by (simp add: armed_Run [OF v(1)] r split: outcome.splits)
qed

lemma exec_Run_armed_error:
  assumes "cmd b < length (cmds w)"
  shows "fst (exec_Run (cmd b) (armed b w)) = fst (exec_Run (cmd b) w)"
proof (cases "Process (cmds w ! cmd b)")
  case None
  note af = armed_facts [OF assms]
  have p: "Process (cmds (armed b w) ! cmd b) = None" using af(2) None by simp
  show ?thesis
    by (simp add: exec_Run_result [OF assms None] exec_Run_result [OF af(1) p] af(3,4)
        armed_launch [OF assms] armed_copy_error split: outcome.splits)
next
  case (Some x)
  note af = armed_facts [OF assms]
  have "Process (cmds (armed b w) ! cmd b) \<noteq> None" using af(2) Some by simp
  then show ?thesis using Some by (simp add: exec_Run_started)
qed

lemma exec_Run_not_StdoutAlreadySet: "fst (exec_Run a w) \<noteq> Some StdoutAlreadySet"
proof -
  have we: "write_error u \<noteq> Some StdoutAlreadySet" "write_errors ws \<noteq> Some StdoutAlreadySet"
    for u ws
    by (induction u and ws rule: write_error_write_errors.induct) (auto split: option.splits)
  have "write_to u p r \<noteq> (Some StdoutAlreadySet, r')" for u p r r'
    using write_to_error(1) [of u p r] we(1) [of u] by auto
  then show ?thesis
    by (auto simp: exec_Run_def exec_Start_def exec_Wait_def Let_def
        split: outcome.splits option.splits prod.splits if_splits)
qed

lemma sample_builder_facts:
  "deref (snd (sample_builder name)) (cmd (fst (sample_builder name))) =
     Some \<lparr>Path = name, Args = [name], Env = Slice 1 0 2 3, Dir = [], Stdin = None,
           Stdout = None, Stderr = Some os_Stderr, Process = None\<rparr>"
  "spawn (snd (sample_builder name))
     (launch_of (snd (sample_builder name))
        \<lparr>Path = name, Args = [name], Env = Slice 1 0 2 3, Dir = [], Stdin = None,
         Stdout = None, Stderr = Some os_Stderr, Process = None\<rparr>) =
   sample_run \<lparr>l_Path = name, l_Args = [name], l_Dir = [],
               l_Env = [''PATH=/bin'', ''SHELL=/bin/sh''], l_Stdin = None\<rparr>"
  "nbuf (snd (sample_builder name)) = 0"
  by (simp_all add: sample_builder_unfold deref_def launch_of_def)





lemma Lines_of_Output:
  "CmdBuilder_Output b w = Some ((s, Some e), w') \<Longrightarrow>
   CmdBuilder_Lines b w = Some (([], Some e), w')"
  "CmdBuilder_Output b w = Some ((s, None), w') \<Longrightarrow>
   CmdBuilder_Lines b w =
     Some ((strings_Split (strings_ReplaceAll s [CR, LF] [LF]) [LF], None), w')"
  "CmdBuilder_Output b w = None \<Longrightarrow> CmdBuilder_Lines b w = None"
  by (simp_all add: CmdBuilder_Lines_def)

lemma Output_error_empty:
  assumes "CmdBuilder_Output b w = Some ((s, Some e), w')"
  shows "s = []"
proof (cases "deref w (cmd b)")
  case None
  then show ?thesis using assms by (simp add: CmdBuilder_Output_def)
next
  case (Some c)
  show ?thesis
    using assms unfolding Output_armed [OF Some]
    by (auto split: prod.splits option.splits)
qed

lemma Output_error_is_Run_error:
  "map_option (\<lambda>r. snd (fst r)) (CmdBuilder_Output b w) = map_option fst (CmdBuilder_Run b w)"
proof (cases "deref w (cmd b)")
  case None
  then show ?thesis by (simp add: CmdBuilder_Output_def CmdBuilder_Run_def)
next
  case (Some c)
  then have v: "cmd b < length (cmds w)" by (simp add: deref_Some)
  have "map_option (\<lambda>r. snd (fst r)) (CmdBuilder_Output b w) =
        Some (fst (exec_Run (cmd b) (armed b w)))"
    unfolding Output_armed [OF Some] by (auto split: prod.splits option.splits)
  then show ?thesis
    using Some by (simp add: CmdBuilder_Run_def exec_Run_armed_error [OF v])
qed

lemma Output_of_Run_error:
  assumes "deref w (cmd b) = Some c" "fst (exec_Run (cmd b) (armed b w)) = Some e"
  shows "\<exists>w'. CmdBuilder_Output b w = Some (([], Some e), w')"
  using assms(2) unfolding Output_armed [OF assms(1)]
  by (cases "exec_Run (cmd b) (armed b w)") simp

text \<open>
  Claim C7.  Whenever \<open>Output\<close> returns an error, the string it returns is empty, and
  \<open>Lines\<close> returns that same error and no lines.  The error is the one \<open>Run\<close> gives
  on that command: on a command that has not been started, the creation error when the
  process cannot be created and the exit error when it exits with a status other than 0.
\<close>

theorem Output_Lines_failure:
  "(\<forall>s e w'. CmdBuilder_Output b w = Some ((s, Some e), w') \<longrightarrow>
       s = [] \<and> CmdBuilder_Lines b w = Some (([], Some e), w')) \<and>
   map_option (\<lambda>r. snd (fst r)) (CmdBuilder_Output b w) = map_option fst (CmdBuilder_Run b w) \<and>
   (\<forall>c. deref w (cmd b) = Some c \<and> Process c = None \<longrightarrow>
      (\<forall>msg. spawn w (launch_of w c) = NotCreated msg \<longrightarrow>
         map_option fst (CmdBuilder_Output b w) = Some ([], Some (CreationError msg)) \<and>
         map_option fst (CmdBuilder_Lines b w) = Some ([], Some (CreationError msg))) \<and>
      (\<forall>st out. spawn w (launch_of w c) = Exited st out \<and> st \<noteq> 0 \<longrightarrow>
         map_option fst (CmdBuilder_Output b w) = Some ([], Some (ExitError st)) \<and>
         map_option fst (CmdBuilder_Lines b w) = Some ([], Some (ExitError st))))"
proof (intro conjI allI impI)
  fix s e w' assume o: "CmdBuilder_Output b w = Some ((s, Some e), w')"
  show "s = []" using o by (rule Output_error_empty)
  show "CmdBuilder_Lines b w = Some (([], Some e), w')" using o by (rule Lines_of_Output(1))
next
  show "map_option (\<lambda>r. snd (fst r)) (CmdBuilder_Output b w) = map_option fst (CmdBuilder_Run b w)"
    by (rule Output_error_is_Run_error)
next
  fix c msg assume a: "deref w (cmd b) = Some c \<and> Process c = None"
    and s: "spawn w (launch_of w c) = NotCreated msg"
  then have v: "cmd b < length (cmds w)" "c = cmds w ! cmd b" "Process (cmds w ! cmd b) = None"
    by (auto simp: deref_Some)
  have "fst (exec_Run (cmd b) (armed b w)) = Some (CreationError msg)"
    using s v(2) by (simp add: exec_Run_armed_error [OF v(1)] exec_Run_result [OF v(1) v(3)])
  then obtain w' where o: "CmdBuilder_Output b w = Some (([], Some (CreationError msg)), w')"
    using Output_of_Run_error [OF a [THEN conjunct1]] by blast
  show "map_option fst (CmdBuilder_Output b w) = Some ([], Some (CreationError msg))"
    using o by simp
  show "map_option fst (CmdBuilder_Lines b w) = Some ([], Some (CreationError msg))"
    using Lines_of_Output(1) [OF o] by simp
next
  fix c st out assume a: "deref w (cmd b) = Some c \<and> Process c = None"
    and s: "spawn w (launch_of w c) = Exited st out \<and> st \<noteq> 0"
  then have v: "cmd b < length (cmds w)" "c = cmds w ! cmd b" "Process (cmds w ! cmd b) = None"
    by (auto simp: deref_Some)
  have "fst (exec_Run (cmd b) (armed b w)) = Some (ExitError st)"
    using s v(2) by (simp add: exec_Run_armed_error [OF v(1)] exec_Run_result [OF v(1) v(3)])
  then obtain w' where o: "CmdBuilder_Output b w = Some (([], Some (ExitError st)), w')"
    using Output_of_Run_error [OF a [THEN conjunct1]] by blast
  show "map_option fst (CmdBuilder_Output b w) = Some ([], Some (ExitError st))"
    using o by simp
  show "map_option fst (CmdBuilder_Lines b w) = Some ([], Some (ExitError st))"
    using Lines_of_Output(1) [OF o] by simp
qed

theorem Output_Lines_failure_witness:
  "map_option fst (CmdBuilder_Output (fst (sample_builder ''false'')) (snd (sample_builder ''false''))) =
     Some ([], Some (ExitError 1)) \<and>
   map_option fst (CmdBuilder_Lines (fst (sample_builder ''false'')) (snd (sample_builder ''false''))) =
     Some ([], Some (ExitError 1)) \<and>
   map_option fst (CmdBuilder_Output (fst (sample_builder ''nope'')) (snd (sample_builder ''nope''))) =
     Some ([], Some (CreationError ''executable file not found'')) \<and>
   map_option fst (CmdBuilder_Lines (fst (sample_builder ''nope'')) (snd (sample_builder ''nope''))) =
     Some ([], Some (CreationError ''executable file not found''))"
proof -
  let ?c = "\<lambda>name. \<lparr>Path = name, Args = [name], Env = Slice 1 0 2 3, Dir = [], Stdin = None,
           Stdout = None, Stderr = Some os_Stderr, Process = None\<rparr>"
  have f: "spawn (snd (sample_builder ''false'')) (launch_of (snd (sample_builder ''false'')) (?c ''false'')) =
      Exited 1 [] \<and> (1::int) \<noteq> 0"
    unfolding sample_builder_facts(2) by (simp add: sample_run_def)
  have n: "spawn (snd (sample_builder ''nope'')) (launch_of (snd (sample_builder ''nope'')) (?c ''nope'')) =
      NotCreated ''executable file not found''"
    unfolding sample_builder_facts(2) by (simp add: sample_run_def)
  have p: "\<And>name. deref (snd (sample_builder name)) (cmd (fst (sample_builder name))) = Some (?c name) \<and>
      Process (?c name) = None"
    using sample_builder_facts(1) by simp
  note F = Output_Lines_failure [of "fst (sample_builder ''false'')" "snd (sample_builder ''false'')",
      THEN conjunct2, THEN conjunct2, rule_format, OF p, THEN conjunct2, rule_format, OF f]
  note N = Output_Lines_failure [of "fst (sample_builder ''nope'')" "snd (sample_builder ''nope'')",
      THEN conjunct2, THEN conjunct2, rule_format, OF p, THEN conjunct1, rule_format, OF n]
  show ?thesis using F N by simp
qed

text \<open>\<open>Output\<close> never fails with the library's "Stdout already set".\<close>

lemma Output_not_StdoutAlreadySet:
  "CmdBuilder_Output b w \<noteq> Some ((s, Some StdoutAlreadySet), w')"
proof (cases "deref w (cmd b)")
  case None
  then show ?thesis by (simp add: CmdBuilder_Output_def)
next
  case (Some c)
  show ?thesis
    using exec_Run_not_StdoutAlreadySet [of "cmd b" "armed b w"]
    unfolding Output_armed [OF Some]
    by (cases "exec_Run (cmd b) (armed b w)") (auto split: option.splits)
qed

section \<open>Captured output\<close>

lemma Lines_result:
  assumes "deref w (cmd b) = Some c" "Process c = None" "spawn w (launch_of w c) = Exited 0 out"
    "\<forall>u. Stdout c = Some u \<longrightarrow> buffers_below (nbuf w) u \<and> accepts u"
  shows "CmdBuilder_Output b w = Some ((strings_TrimSpace out, None), finished b 0 out w)"
    "CmdBuilder_Lines b w =
       Some ((strings_Split (strings_ReplaceAll (strings_TrimSpace out) [CR, LF] [LF]) [LF], None),
             finished b 0 out w)"
proof -
  show o: "CmdBuilder_Output b w = Some ((strings_TrimSpace out, None), finished b 0 out w)"
    using Output_result [OF assms(1,2,4)] assms(3) by simp
  show "CmdBuilder_Lines b w =
       Some ((strings_Split (strings_ReplaceAll (strings_TrimSpace out) [CR, LF] [LF]) [LF], None),
             finished b 0 out w)"
    using o by (rule Lines_of_Output(2))
qed

lemma finished_received:
  assumes "deref w (cmd b) = Some c" "x \<noteq> Buffer (nbuf w)"
  shows "received (finished b st out w) x = tee (Stdout c) out (received w) x"
  using assms by (simp add: finished_def deref_Some)

lemma write_to_nothing:
  "p = [] \<Longrightarrow> snd (write_to u p r) = r"
  "p = [] \<Longrightarrow> snd (write_each ws p r) = r"
  by (induction u p r and ws p r rule: write_to_write_each.induct)
    (auto split: prod.splits option.splits)

lemma tee_Some: "tee (Some u) out r = snd (write_to u out r)"
  by (simp add: tee_def write_to_nothing)

text \<open>
  Claim C2.  When the process is created and exits with status 0, \<open>Output\<close> returns
  what the process wrote to its standard output with the leading and the trailing white
  space cut off (the output is a run of white space, the returned string, a run of white
  space, and the returned string neither starts nor ends with white space; for
  \<open>"hello\n"\<close> it is \<open>"hello"\<close>).  If a writer was assigned to standard output before
  the call and accepts what is written to it, that writer receives the output,
  untrimmed, and the same string is returned;
  \<open>Output\<close> never fails with the library's "Stdout already set".
\<close>

theorem Output_trims_and_tees:
  assumes "deref w (cmd b) = Some c" and "Process c = None"
    and "spawn w (launch_of w c) = Exited 0 out"
    and "\<forall>u. Stdout c = Some u \<longrightarrow> buffers_below (nbuf w) u \<and> accepts u"
  shows "\<exists>w' pre post.
      CmdBuilder_Output b w = Some ((strings_TrimSpace out, None), w') \<and>
      set pre \<subseteq> set white_space \<and> set post \<subseteq> set white_space \<and>
      out = concat pre @ strings_TrimSpace out @ concat post \<and>
      \<not> starts_with_space (strings_TrimSpace out) \<and>
      \<not> ends_with_space (strings_TrimSpace out) \<and>
      (\<forall>u. Stdout c = Some u \<longrightarrow>
         (\<forall>x. x \<noteq> Buffer (nbuf w) \<longrightarrow> received w' x = snd (write_to u out (received w)) x)) \<and>
      (\<forall>s w''. CmdBuilder_Output b w \<noteq> Some ((s, Some StdoutAlreadySet), w''))"
proof -
  obtain pre post where t: "set pre \<subseteq> set white_space" "set post \<subseteq> set white_space"
      "out = concat pre @ strings_TrimSpace out @ concat post"
      "\<not> starts_with_space (strings_TrimSpace out)" "\<not> ends_with_space (strings_TrimSpace out)"
    using TrimSpace_spec [of out] by blast
  have r: "\<forall>u. Stdout c = Some u \<longrightarrow>
         (\<forall>x. x \<noteq> Buffer (nbuf w) \<longrightarrow>
            received (finished b 0 out w) x = snd (write_to u out (received w)) x)"
    using finished_received [OF assms(1)] by (simp add: tee_Some)
  have n: "\<forall>s w''. CmdBuilder_Output b w \<noteq> Some ((s, Some StdoutAlreadySet), w'')"
    by (simp add: Output_not_StdoutAlreadySet)
  show ?thesis
    using Lines_result(1) [OF assms] t r n by blast
qed

theorem Output_trims_and_tees_witness:
  "(\<exists>w'. CmdBuilder_Output (fst (sample_builder ''hello'')) (snd (sample_builder ''hello'')) =
           Some ((''hello'', None), w')) \<and>
   (\<exists>w2 w3.
      CmdBuilder_Stdout (fst (sample_builder ''hello'')) (Some (Sink 7))
        (snd (sample_builder ''hello'')) = Some (fst (sample_builder ''hello''), w2) \<and>
      CmdBuilder_Output (fst (sample_builder ''hello'')) w2 = Some ((''hello'', None), w3) \<and>
      received w3 (Sink 7) = ''hello'' @ [LF])"
proof -
  let ?B = "fst (sample_builder ''hello'')"
  let ?W = "snd (sample_builder ''hello'')"
  let ?c = "\<lparr>Path = ''hello'', Args = [''hello''], Env = Slice 1 0 2 3, Dir = [], Stdin = None,
           Stdout = None, Stderr = Some os_Stderr, Process = None\<rparr>"
  let ?out = "''hello'' @ [LF]"
  have sp: "spawn ?W (launch_of ?W ?c) = Exited 0 ?out"
    unfolding sample_builder_facts(2) by (simp add: sample_run_def)
  have a: "\<exists>w'. CmdBuilder_Output ?B ?W = Some ((''hello'', None), w')"
    using Output_trims_and_tees [OF sample_builder_facts(1) _ sp]
    by (auto simp: TrimSpace_hello [simplified])
  let ?W2 = "assign (cmd ?B) (\<lambda>x. x\<lparr>Stdout := Some (Sink 7)\<rparr>) ?W"
  let ?c2 = "?c\<lparr>Stdout := Some (Sink 7)\<rparr>"
  have s2: "CmdBuilder_Stdout ?B (Some (Sink 7)) ?W = Some (?B, ?W2)"
    by (simp add: CmdBuilder_Stdout_def sample_builder_facts(1))
  have d2: "deref ?W2 (cmd ?B) = Some ?c2"
    by (simp add: sample_builder_unfold deref_def assign_def)
  have sp2: "spawn ?W2 (launch_of ?W2 ?c2) = Exited 0 ?out"
    by (simp add: sample_builder_unfold assign_def launch_of_def sample_run_def)
  have r2: "received ?W2 = (\<lambda>_. [])" "nbuf ?W2 = 0"
    by (simp_all add: sample_builder_unfold assign_def)
  from Output_trims_and_tees [OF d2 _ sp2]
  obtain w3 where w3: "CmdBuilder_Output ?B ?W2 = Some ((strings_TrimSpace ?out, None), w3)"
    "\<forall>u. Stdout ?c2 = Some u \<longrightarrow>
       (\<forall>x. x \<noteq> Buffer (nbuf ?W2) \<longrightarrow> received w3 x = snd (write_to u ?out (received ?W2)) x)"
    by (auto simp: accepts_def)
  have "received w3 (Sink 7) = ?out" using w3(2) by (simp add: r2)
  then show ?thesis using a s2 w3(1) by (auto simp: TrimSpace_hello [simplified])
qed

text \<open>
  Claim C1, as the specification states it, fails: for the output \<open>"a\r\nb\n"\<close>
  \<open>Lines\<close> returns \<open>["a", "b"]\<close>, not \<open>["a", "b", ""]\<close>, because \<open>Output\<close> has
  trimmed the final line terminator before the string is split.
\<close>

theorem Lines_keeps_trailing_empty_counterexample:
  "spawn (snd (sample_builder ''lines''))
     (launch_of (snd (sample_builder ''lines''))
        (cmds (snd (sample_builder ''lines'')) ! cmd (fst (sample_builder ''lines'')))) =
     Exited 0 (''a'' @ [CR, LF] @ ''b'' @ [LF]) \<and>
   map_option fst
     (CmdBuilder_Lines (fst (sample_builder ''lines'')) (snd (sample_builder ''lines''))) =
     Some ([''a'', ''b''], None) \<and>
   map_option fst
     (CmdBuilder_Lines (fst (sample_builder ''lines'')) (snd (sample_builder ''lines''))) \<noteq>
     Some ([''a'', ''b'', []], None)"
proof -
  let ?B = "fst (sample_builder ''lines'')"
  let ?W = "snd (sample_builder ''lines'')"
  let ?c = "\<lparr>Path = ''lines'', Args = [''lines''], Env = Slice 1 0 2 3, Dir = [], Stdin = None,
           Stdout = None, Stderr = Some os_Stderr, Process = None\<rparr>"
  have c: "cmds ?W ! cmd ?B = ?c" by (simp add: sample_builder_unfold)
  have sp: "spawn ?W (launch_of ?W ?c) = Exited 0 (''a'' @ [CR, LF] @ ''b'' @ [LF])"
    unfolding sample_builder_facts(2) by (simp add: sample_run_def)
  have "CmdBuilder_Lines ?B ?W =
      Some (([''a'', ''b''], None), finished ?B 0 (''a'' @ [CR, LF] @ ''b'' @ [LF]) ?W)"
    using Lines_result(2) [OF sample_builder_facts(1) _ sp]
    by (simp add: TrimSpace_lines [simplified] Split_lines [simplified])
  then show ?thesis using sp by (simp add: c)
qed

text \<open>
  Claim C1, amended.  \<open>Lines\<close> trims the output first, then replaces every CRLF by LF
  and splits at LF.  For the output \<open>"a\r\nb\n"\<close> it returns \<open>["a", "b"]\<close>.  A line
  terminator at the end of the output leaves no empty last element: the last element
  is empty only when the whole result is \<open>[""]\<close>.
\<close>

theorem Lines_trims_then_splits:
  assumes "deref w (cmd b) = Some c" and "Process c = None"
    and "spawn w (launch_of w c) = Exited 0 out"
    and "\<forall>u. Stdout c = Some u \<longrightarrow> buffers_below (nbuf w) u \<and> accepts u"
  shows "\<exists>ls w'.
      CmdBuilder_Lines b w = Some ((ls, None), w') \<and>
      ls = strings_Split (strings_ReplaceAll (strings_TrimSpace out) [CR, LF] [LF]) [LF] \<and>
      (out = ''a'' @ [CR, LF] @ ''b'' @ [LF] \<longrightarrow> ls = [''a'', ''b'']) \<and>
      (last ls = [] \<longrightarrow> ls = [[]])"
proof -
  let ?ls = "strings_Split (strings_ReplaceAll (strings_TrimSpace out) [CR, LF] [LF]) [LF]"
  have e: "\<not> ends_with_space (strings_TrimSpace out)"
    using TrimSpace_spec [of out] by blast
  have "last ?ls = [] \<longrightarrow> ?ls = [[]]" using Lines_last [OF e] by blast
  moreover have "out = ''a'' @ [CR, LF] @ ''b'' @ [LF] \<longrightarrow> ?ls = [''a'', ''b'']"
    by (simp add: TrimSpace_lines [simplified] Split_lines [simplified])
  ultimately show ?thesis using Lines_result(2) [OF assms] by blast
qed

theorem Lines_trims_then_splits_witness:
  "\<exists>w'. CmdBuilder_Lines (fst (sample_builder ''lines'')) (snd (sample_builder ''lines'')) =
     Some (([''a'', ''b''], None), w')"
proof -
  let ?W = "snd (sample_builder ''lines'')"
  let ?c = "\<lparr>Path = ''lines'', Args = [''lines''], Env = Slice 1 0 2 3, Dir = [], Stdin = None,
           Stdout = None, Stderr = Some os_Stderr, Process = None\<rparr>"
  have sp: "spawn ?W (launch_of ?W ?c) = Exited 0 (''a'' @ [CR, LF] @ ''b'' @ [LF])"
    unfolding sample_builder_facts(2) by (simp add: sample_run_def)
  show ?thesis
    using Lines_trims_then_splits [OF sample_builder_facts(1) _ sp] by auto
qed

text \<open>
  Claim C9.  When \<open>Lines\<close> succeeds the list it returns is not empty, and for a process
  whose output is empty or only white space it is the list of one empty string.
\<close>

theorem Lines_never_empty:
  "(\<forall>ls w'. CmdBuilder_Lines b w = Some ((ls, None), w') \<longrightarrow> ls \<noteq> []) \<and>
   (\<forall>c qs. deref w (cmd b) = Some c \<and> Process c = None \<and>
       (\<forall>u. Stdout c = Some u \<longrightarrow> buffers_below (nbuf w) u \<and> accepts u) \<and>
       set qs \<subseteq> set white_space \<and> spawn w (launch_of w c) = Exited 0 (concat qs) \<longrightarrow>
       map_option fst (CmdBuilder_Lines b w) = Some ([[]], None))"
proof (intro conjI allI impI)
  fix ls w' assume l: "CmdBuilder_Lines b w = Some ((ls, None), w')"
  then have "ls = strings_Split (strings_ReplaceAll (fst (fst (the (CmdBuilder_Output b w)))) [CR, LF] [LF]) [LF]"
    by (auto simp: CmdBuilder_Lines_def split: option.splits prod.splits)
  then show "ls \<noteq> []" by (simp add: Split_nonempty)
next
  fix c qs
  assume a: "deref w (cmd b) = Some c \<and> Process c = None \<and>
       (\<forall>u. Stdout c = Some u \<longrightarrow> buffers_below (nbuf w) u \<and> accepts u) \<and>
       set qs \<subseteq> set white_space \<and> spawn w (launch_of w c) = Exited 0 (concat qs)"
  then have "CmdBuilder_Lines b w =
       Some ((strings_Split (strings_ReplaceAll (strings_TrimSpace (concat qs)) [CR, LF] [LF]) [LF], None),
             finished b 0 (concat qs) w)"
    using Lines_result(2) [of w b c "concat qs"] by blast
  then show "map_option fst (CmdBuilder_Lines b w) = Some ([[]], None)"
    using a by (simp add: TrimSpace_white Split_empty)
qed

theorem Lines_never_empty_witness:
  "map_option fst
     (CmdBuilder_Lines (fst (sample_builder ''blank'')) (snd (sample_builder ''blank''))) =
     Some ([[]], None) \<and>
   map_option fst
     (CmdBuilder_Lines (fst (sample_builder ''true'')) (snd (sample_builder ''true''))) =
     Some ([[]], None)"
proof -
  let ?c = "\<lambda>name. \<lparr>Path = name, Args = [name], Env = Slice 1 0 2 3, Dir = [], Stdin = None,
           Stdout = None, Stderr = Some os_Stderr, Process = None\<rparr>"
  have b: "spawn (snd (sample_builder ''blank'')) (launch_of (snd (sample_builder ''blank'')) (?c ''blank'')) =
      Exited 0 (concat [[SP], [CR], [LF], [HT]])"
    unfolding sample_builder_facts(2) by (simp add: sample_run_def)
  have t: "spawn (snd (sample_builder ''true'')) (launch_of (snd (sample_builder ''true'')) (?c ''true'')) =
      Exited 0 (concat [])"
    unfolding sample_builder_facts(2) by (simp add: sample_run_def)
  have ws: "set [[SP], [CR], [LF], [HT]] \<subseteq> set white_space" "set [] \<subseteq> set white_space"
    by (simp_all add: white_space_def)
  have h: "\<And>name. Process (?c name) = None \<and>
       (\<forall>u. Stdout (?c name) = Some u \<longrightarrow>
          buffers_below (nbuf (snd (sample_builder name))) u \<and> accepts u)"
    by simp
  note B = Lines_never_empty [of "fst (sample_builder ''blank'')" "snd (sample_builder ''blank'')",
      THEN conjunct2, rule_format, of "?c ''blank''" "[[SP], [CR], [LF], [HT]]"]
  note T = Lines_never_empty [of "fst (sample_builder ''true'')" "snd (sample_builder ''true'')",
      THEN conjunct2, rule_format, of "?c ''true''" "[]"]
  show ?thesis
    using B T sample_builder_facts(1) h ws b t by blast
qed

end
